theory Spec2Isabelle
  imports Main "HOL-Library.AList"
begin

section \<open>JavaScript values and HTTP messages\<close>

text \<open>
  A header object maps names to string values and keeps insertion order; assigning to a
  name that is already there keeps its place (\<open>AList.update\<close>).
\<close>

type_synonym headers = "(string \<times> string) list"

text \<open>One recorded stream event: the arguments of \<open>emit\<close> after the event's name.\<close>

datatype stream_event =
    DataEvent string "string option"
  | EndEvent "string option" "string option"

text \<open>
  The optional arguments of \<open>proxyRequest\<close> are untyped in the source: a port can be
  a number, a host a string, and the third argument the handle returned by \<open>buffer\<close>
  (held here as the events it has captured).
\<close>

datatype jsval = Undefined | Num nat | Str string | Handle "stream_event list"

fun truthy :: "jsval \<Rightarrow> bool" where
  "truthy Undefined = False"
| "truthy (Num n) = (n \<noteq> 0)"
| "truthy (Str s) = (s \<noteq> [])"
| "truthy (Handle evs) = True"

text \<open>\<open>h[k]\<close> read in a condition: the value when it is present and not the empty string.\<close>

definition truthy_header :: "headers \<Rightarrow> string \<Rightarrow> string option" where
  "truthy_header hs k = (case map_of hs k of None \<Rightarrow> None | Some v \<Rightarrow> if v = [] then None else Some v)"

definition set_header :: "headers \<Rightarrow> string \<Rightarrow> string \<Rightarrow> headers" where
  "set_header hs k v = AList.update k v hs"

record request =
  http_method :: string
  url :: string
  headers :: headers

record location =
  host :: string
  port :: nat

datatype js_error = TypeError | OutOfBounds | Uncaught string

section \<open>The proxy instance and the effects of one proxy cycle\<close>

text \<open>
  What \<open>proxyRequest\<close> reads from outside its arguments: the routing table's
  \<open>getProxyLocation\<close> (the table itself lives in another module), \<open>options.forward\<close>,
  whether a \<open>proxyError\<close> listener is registered on the proxy (\<open>emit\<close> returns true
  exactly then), whether \<open>NODE_ENV\<close> is \<open>production\<close>, and \<open>JSON.stringify\<close> on errors
  (an error is named by a string). The log lines and the agent's socket limit touch
  neither the request nor the response and are left out.
\<close>

record env =
  proxyTable :: "(request \<Rightarrow> location option) option"
  forward :: "location option"
  proxyError_listener :: bool
  production :: bool
  stringify :: "string \<Rightarrow> string"

text \<open>
  Every call the cycle makes on the inbound response (\<open>writeHead(404)\<close> passes no
  headers, written \<open>[]\<close>), on the outbound and the forward request, and the
  \<open>proxyError\<close> it emits. What an application's own listener does with the response
  is not the cycle's doing and is not recorded.
\<close>

datatype action =
    ResWriteHead nat headers
  | ResWrite string
  | ResEnd
  | HttpRequest jsval jsval string string headers
  | ProxyWrite string
  | ProxyEnd
  | ForwardRequest jsval jsval string string headers
  | ForwardWrite string
  | ForwardEnd
  | EmitProxyError string

text \<open>
  The closure of one call of \<open>proxyRequest\<close>: the request object (its headers are
  shared with the outbound options), \<open>errState\<close>, which listeners are attached, the calls
  issued so far in order, and the exceptions that left a handler.
\<close>

record cycle =
  req :: request
  errState :: bool
  response_callback :: bool
  error_listener :: bool
  response_listeners :: bool
  proxy_listeners :: bool
  forward_listeners :: bool
  forward_error_listener :: bool
  issued :: "action list"
  thrown :: "js_error list"

definition start :: "request \<Rightarrow> cycle" where
  "start rq = \<lparr> req = rq, errState = False, response_callback = False, error_listener = False,
     response_listeners = False, proxy_listeners = False, forward_listeners = False,
     forward_error_listener = False, issued = [], thrown = [] \<rparr>"

definition issue :: "action \<Rightarrow> cycle \<Rightarrow> cycle" where
  "issue a s = s\<lparr> issued := issued s @ [a] \<rparr>"

definition throw :: "js_error \<Rightarrow> cycle \<Rightarrow> cycle" where
  "throw e s = s\<lparr> thrown := thrown s @ [e] \<rparr>"

text \<open>
  \<open>opts.headers\<close> is the request's own header object, so
  \<open>opts.headers['connection'] = 'close'\<close> writes into \<open>req.headers\<close>.
\<close>

definition force_close :: "cycle \<Rightarrow> cycle" where
  "force_close s = s\<lparr> req := (req s)\<lparr> headers := set_header (headers (req s)) ''connection'' ''close'' \<rparr> \<rparr>"

text \<open>\<open>_forwardRequest\<close>: the fire-and-forget copy to \<open>options.forward\<close>.\<close>

definition forwardRequest :: "location \<Rightarrow> cycle \<Rightarrow> cycle" where
  "forwardRequest f s =
     (let s1 = force_close s;
          s2 = issue (ForwardRequest (Str (host f)) (Num (port f)) (http_method (req s1)) (url (req s1))
                        (headers (req s1))) s1
      in s2\<lparr> forward_error_listener := True, forward_listeners := True \<rparr>)"

text \<open>\<open>proxyError\<close>, the once-listener for the outbound request's \<open>error\<close> event.\<close>

definition proxyError :: "env \<Rightarrow> string \<Rightarrow> cycle \<Rightarrow> cycle" where
  "proxyError env err s =
     (let s1 = s\<lparr> errState := True \<rparr>;
          s2 = issue (EmitProxyError err) s1
      in if proxyError_listener env then s2
         else
           (let s3 = issue (ResWriteHead 500 [(''Content-Type'', ''text/plain'')]) s2;
                s4 = (if http_method (req s3) \<noteq> ''HEAD''
                      then (if production env
                            then issue (ResWrite ''Internal Server Error'') s3
                            else issue (ResWrite (''An error has occurred: '' @ stringify env err)) s3)
                      else s3)
            in issue ResEnd s4))"

text \<open>
  The callback of \<open>http.request\<close>, which the platform runs once, with the backend's
  response head.
\<close>

definition on_response :: "nat \<Rightarrow> headers \<Rightarrow> cycle \<Rightarrow> cycle" where
  "on_response status hs s =
     (let hs1 = (case truthy_header hs ''connection'' of
                   None \<Rightarrow> hs
                 | Some c \<Rightarrow>
                     (case truthy_header (headers (req s)) ''connection'' of
                        Some r \<Rightarrow> set_header hs ''connection'' r
                      | None \<Rightarrow> set_header hs ''connection'' ''close''));
          s1 = issue (ResWriteHead status hs1) s
      in if status = 304 then issue ResEnd s1
         else s1\<lparr> response_listeners := True \<rparr>)"

text \<open>The listeners on the backend response and on the inbound request.\<close>

definition on_response_data :: "string \<Rightarrow> cycle \<Rightarrow> cycle" where
  "on_response_data chunk s =
     (if http_method (req s) \<noteq> ''HEAD'' then issue (ResWrite chunk) s else s)"

definition on_response_end :: "cycle \<Rightarrow> cycle" where
  "on_response_end s =
     (if \<not> errState s then issue ResEnd (s\<lparr> error_listener := False \<rparr>) else s)"

definition on_req_data :: "string \<Rightarrow> cycle \<Rightarrow> cycle" where
  "on_req_data chunk s = (if \<not> errState s then issue (ProxyWrite chunk) s else s)"

definition on_req_end :: "cycle \<Rightarrow> cycle" where
  "on_req_end s = (if \<not> errState s then issue ProxyEnd s else s)"

text \<open>
  The events that reach the cycle's listeners. A listener runs only while it is attached;
  on the inbound request the forward path's listeners were attached first and run first.
  An \<open>error\<close> event that finds no listener is thrown by the emitter.
\<close>

datatype event =
    ReqData string
  | ReqEnd
  | BackendResponse nat headers
  | BackendData string
  | BackendEnd
  | BackendError string
  | ForwardError string

fun step :: "env \<Rightarrow> event \<Rightarrow> cycle \<Rightarrow> cycle" where
  "step env (ReqData chunk) s =
     (let s1 = (if forward_listeners s then issue (ForwardWrite chunk) s else s)
      in if proxy_listeners s1 then on_req_data chunk s1 else s1)"
| "step env ReqEnd s =
     (let s1 = (if forward_listeners s then issue ForwardEnd s else s)
      in if proxy_listeners s1 then on_req_end s1 else s1)"
| "step env (BackendResponse status hs) s =
     (if response_callback s then on_response status hs (s\<lparr> response_callback := False \<rparr>) else s)"
| "step env (BackendData chunk) s =
     (if response_listeners s then on_response_data chunk s else s)"
| "step env BackendEnd s =
     (if response_listeners s then on_response_end s else s)"
| "step env (BackendError err) s =
     (if error_listener s then proxyError env err (s\<lparr> error_listener := False \<rparr>)
      else throw (Uncaught err) s)"
| "step env (ForwardError err) s =
     (if forward_error_listener s then s\<lparr> forward_error_listener := False \<rparr>
      else throw (Uncaught err) s)"

fun run :: "env \<Rightarrow> event list \<Rightarrow> cycle \<Rightarrow> cycle" where
  "run env [] s = s"
| "run env (ev # evs) s = run env evs (step env ev s)"

text \<open>\<open>buffer.resume()\<close> as the cycle sees it: each captured event is emitted on the request.\<close>

fun req_event :: "stream_event \<Rightarrow> event" where
  "req_event (DataEvent chunk encoding) = ReqData chunk"
| "req_event (EndEvent chunk encoding) = ReqEnd"

definition resume_buffer :: "env \<Rightarrow> jsval \<Rightarrow> cycle \<Rightarrow> cycle" where
  "resume_buffer env b s =
     (if truthy b \<and> \<not> errState s
      then (case b of
              Handle captured \<Rightarrow> run env (map req_event captured) s
            | _ \<Rightarrow> throw TypeError s)
      else s)"

text \<open>
  Route resolution at the head of \<open>proxyRequest\<close>: with a table and no truthy host the
  table decides, and the third argument is then the buffer. \<open>None\<close> is the route miss.
\<close>

definition resolve :: "env \<Rightarrow> request \<Rightarrow> jsval \<Rightarrow> jsval \<Rightarrow> jsval \<Rightarrow> (jsval \<times> jsval \<times> jsval) option" where
  "resolve env rq port_arg host_arg buffer_arg =
     (case proxyTable env of
        None \<Rightarrow> Some (port_arg, host_arg, buffer_arg)
      | Some getProxyLocation \<Rightarrow>
          if truthy host_arg then Some (port_arg, host_arg, buffer_arg)
          else (case getProxyLocation rq of
                  None \<Rightarrow> None
                | Some loc \<Rightarrow> Some (Num (port loc), Str (host loc), port_arg)))"

text \<open>
  The body of \<open>proxyRequest\<close> once the target is known: the optional forward copy, the
  outbound request with the shared headers forced to \<open>close\<close>, and the listeners.
\<close>

definition connect :: "env \<Rightarrow> request \<Rightarrow> jsval \<Rightarrow> jsval \<Rightarrow> cycle" where
  "connect env rq port1 host1 =
     (let s1 = (case forward env of None \<Rightarrow> start rq | Some f \<Rightarrow> forwardRequest f (start rq));
          s2 = force_close s1;
          s3 = issue (HttpRequest host1 port1 (http_method (req s2)) (url (req s2)) (headers (req s2))) s2
      in s3\<lparr> response_callback := True, error_listener := True, proxy_listeners := True \<rparr>)"

definition proxyRequest :: "env \<Rightarrow> request \<Rightarrow> jsval \<Rightarrow> jsval \<Rightarrow> jsval \<Rightarrow> cycle" where
  "proxyRequest env rq port_arg host_arg buffer_arg =
     (case resolve env rq port_arg host_arg buffer_arg of
        None \<Rightarrow> issue ResEnd (issue (ResWriteHead 404 []) (start rq))
      | Some (port1, host1, buffer1) \<Rightarrow> resume_buffer env buffer1 (connect env rq port1 host1))"

section \<open>The event buffer\<close>

text \<open>
  \<open>buffer(obj)\<close> attaches two listeners to \<open>obj\<close> that push what they hear onto the
  closure's \<open>events\<close> array. The state below is that closure together with \<open>obj\<close>:
  which of the two listeners are still attached, the array, and every \<open>emit\<close> on
  \<open>obj\<close> since the call, in order.
\<close>

record buffered =
  onData :: bool
  onEnd :: bool
  events :: "stream_event list"
  emitted :: "stream_event list"

definition buffer :: buffered where
  "buffer = \<lparr> onData = True, onEnd = True, events = [], emitted = [] \<rparr>"

text \<open>\<open>obj.emit\<close>: the handle's listener for that event name, if attached, records it.\<close>

fun emit :: "stream_event \<Rightarrow> buffered \<Rightarrow> buffered" where
  "emit (DataEvent d e) s =
     (let s1 = (if onData s then s\<lparr> events := events s @ [DataEvent d e] \<rparr> else s)
      in s1\<lparr> emitted := emitted s1 @ [DataEvent d e] \<rparr>)"
| "emit (EndEvent d e) s =
     (let s1 = (if onEnd s then s\<lparr> events := events s @ [EndEvent d e] \<rparr> else s)
      in s1\<lparr> emitted := emitted s1 @ [EndEvent d e] \<rparr>)"

fun capture :: "stream_event list \<Rightarrow> buffered \<Rightarrow> buffered" where
  "capture [] s = s"
| "capture (ev # evs) s = capture evs (emit ev s)"

text \<open>The handle's \<open>end()\<close> (named apart from the keyword).\<close>

definition buffer_end :: "buffered \<Rightarrow> buffered" where
  "buffer_end s = s\<lparr> onData := False, onEnd := False \<rparr>"

text \<open>
  The loop of \<open>resume()\<close>: \<open>len\<close> is read once, \<open>events[i]\<close> at every turn.
\<close>

function resume_loop :: "nat \<Rightarrow> nat \<Rightarrow> buffered \<Rightarrow> buffered" where
  "resume_loop i len s = (if i < len then resume_loop (Suc i) len (emit (events s ! i) s) else s)"
  by pat_completeness auto
termination
  by (relation "measure (\<lambda>(i, len, s). len - i)") auto

definition resume :: "buffered \<Rightarrow> buffered" where
  "resume s = (let s1 = buffer_end s in resume_loop 0 (length (events s1)) s1)"

section \<open>Strings and buffers of the WebSocket tunnel\<close>

text \<open>
  A \<open>Buffer\<close> is a list of bytes. A JavaScript string is held as its UTF-8 bytes, which
  is what \<open>Buffer.byteLength\<close> counts and what \<open>socket.write\<close> sends; searching for
  and replacing a well-formed substring gives the same result on either view.
\<close>

type_synonym bytes = string

definition CRLF :: string where
  "CRLF = [CHR 0x0D, CHR 0x0A]"

text \<open>
  \<open>Buffer.prototype.toString()\<close> is Node's UTF-8 decoder, not code of this module: a
  well-formed sequence is kept, any other byte becomes U+FFFD (bytes EF BF BD). How a
  decoder treats overlong forms and surrogates differs between versions; the results
  below rely on it only for ASCII text, which every version decodes to itself.
\<close>

definition continuation :: "char \<Rightarrow> bool" where
  "continuation c = (128 \<le> (of_char c :: nat) \<and> (of_char c :: nat) < 192)"

definition sequence_length :: "bytes \<Rightarrow> nat" where
  "sequence_length bs =
     (case bs of
        [] \<Rightarrow> 0
      | b # r \<Rightarrow>
          (let n = (of_char b :: nat) in
           if n < 128 then 1
           else if 194 \<le> n \<and> n < 224 \<and> 1 \<le> length r \<and> list_all continuation (take 1 r) then 2
           else if 224 \<le> n \<and> n < 240 \<and> 2 \<le> length r \<and> list_all continuation (take 2 r) then 3
           else if 240 \<le> n \<and> n < 245 \<and> 3 \<le> length r \<and> list_all continuation (take 3 r) then 4
           else 0))"

definition replacement_character :: string where
  "replacement_character = [CHR 0xEF, CHR 0xBF, CHR 0xBD]"

fun toString :: "bytes \<Rightarrow> string" where
  "toString [] = []"
| "toString (b # bs) =
     (let n = sequence_length (b # bs) in
      if n = 0 then replacement_character @ toString bs
      else (b # take (n - 1) bs) @ toString (drop (n - 1) bs))"

definition byteLength :: "string \<Rightarrow> nat" where
  "byteLength s = length s"

text \<open>\<open>Buffer.prototype.slice(start, end)\<close> throws when the range is out of bounds.\<close>

definition slice :: "bytes \<Rightarrow> nat \<Rightarrow> nat \<Rightarrow> bytes option" where
  "slice b lo hi =
     (if length b < hi \<or> hi < lo then None else Some (take (hi - lo) (drop lo b)))"

text \<open>
  \<open>String.prototype.search\<close> with a pattern free of regular-expression operators: the
  index of the first occurrence, or \<open>-1\<close>.
\<close>

fun indexOf :: "string \<Rightarrow> string \<Rightarrow> nat option" where
  "indexOf pat [] = (if pat = [] then Some 0 else None)"
| "indexOf pat (c # cs) =
     (if take (length pat) (c # cs) = pat then Some 0 else map_option Suc (indexOf pat cs))"

definition search :: "string \<Rightarrow> string \<Rightarrow> int" where
  "search s pat = (case indexOf pat s of None \<Rightarrow> - 1 | Some i \<Rightarrow> int i)"

text \<open>\<open>substr(start, length)\<close>: a negative length gives the empty string.\<close>

definition substr :: "string \<Rightarrow> nat \<Rightarrow> int \<Rightarrow> string" where
  "substr s pos len = take (nat len) (drop pos s)"

text \<open>
  \<open>String.prototype.replace\<close> with a string pattern replaces the first occurrence only,
  and reads \<open>$$\<close>, \<open>$&\<close>, the dollar-backquote and dollar-quote pairs in the replacement
  as the dollar sign, the match, the text before it and the text after it.
\<close>

fun expand :: "string \<Rightarrow> string \<Rightarrow> string \<Rightarrow> string \<Rightarrow> string" where
  "expand [] matched pre post = []"
| "expand [c] matched pre post = [c]"
| "expand (c # d # r) matched pre post =
     (if c = CHR ''$'' \<and> d = CHR ''$'' then CHR ''$'' # expand r matched pre post
      else if c = CHR ''$'' \<and> d = CHR ''&'' then matched @ expand r matched pre post
      else if c = CHR ''$'' \<and> d = CHR 0x60 then pre @ expand r matched pre post
      else if c = CHR ''$'' \<and> d = CHR 0x27 then post @ expand r matched pre post
      else c # expand (d # r) matched pre post)"

definition replace :: "string \<Rightarrow> string \<Rightarrow> string \<Rightarrow> string" where
  "replace s pat rep =
     (case indexOf pat s of
        None \<Rightarrow> s
      | Some i \<Rightarrow>
          take i s @ expand rep pat (take i s) (drop (i + length pat) s) @ drop (i + length pat) s)"

definition lower_char :: "char \<Rightarrow> char" where
  "lower_char c =
     (case map_of (zip ''ABCDEFGHIJKLMNOPQRSTUVWXYZ'' ''abcdefghijklmnopqrstuvwxyz'') c of
        None \<Rightarrow> c
      | Some d \<Rightarrow> d)"

definition toLowerCase :: "string \<Rightarrow> string" where
  "toLowerCase s = map lower_char s"

text \<open>A number appended to a string, and \<open>undefined\<close> used as a replacement string.\<close>

fun decimal :: "nat \<Rightarrow> string" where
  "decimal n =
     (if n < 10 then [''0123456789'' ! n] else decimal (n div 10) @ [''0123456789'' ! (n mod 10)])"

definition string_of :: "string option \<Rightarrow> string" where
  "string_of v = (case v of None \<Rightarrow> ''undefined'' | Some s \<Rightarrow> s)"

section \<open>The WebSocket tunnel\<close>

text \<open>
  The objects that emit events in \<open>proxyWebSocketRequest\<close>: the inbound \<open>socket\<close>,
  \<open>request.socket\<close>, the upgraded \<open>reverse_proxy\<close> socket, the pooled \<open>client\<close>, its
  \<open>request\<close> and the \<open>response\<close>; and the functions the source attaches to them. The
  four relay listeners are created anew by every call of \<open>onUpgrade\<close>, so they carry
  the number of that call.
\<close>

datatype emitter = Socket | RequestSocket | ReverseProxy | Client | Request | Response

datatype event_name = EvData | EvEnd | EvClose | EvError | EvUpgrade | EvResponse

datatype listener =
    Handshake
  | ErrorListener
  | OnUpgrade
  | OnResponse
  | OnResponseEnd
  | OnSocketError
  | L_r_data nat
  | L_data nat
  | L_r_close nat
  | L_close nat

datatype effect =
    SetTimeout emitter nat
  | SetNoDelay emitter bool
  | SetKeepAlive emitter bool nat
  | SetEncoding emitter string
  | GetPool nat string
  | GetClient
  | ClientRequest string string headers
  | Write emitter bytes
  | End emitter
  | SetBusy bool
  | EvictClient
  | OnFree
  | Unwatch

text \<open>
  The closure of one call: \<open>host\<close>, \<open>remote_host\<close>, the cloned headers, \<open>req.url\<close>
  and \<open>head\<close>; the listeners attached, in order of attachment; the streams whose
  \<open>writable\<close> property is false and those on which \<open>write\<close> throws (the platform's
  state, changed by the platform only); the effects so far and the exceptions that left
  a handler.
\<close>

record tunnel =
  tunnel_host :: "string option"
  remote_host :: string
  upgrade_headers :: headers
  path :: string
  head :: bytes
  awaiting_client :: bool
  listeners :: "(emitter \<times> event_name \<times> listener) list"
  unwritable :: "emitter set"
  failing :: "emitter set"
  sessions :: nat
  effects :: "effect list"
  escaped :: "js_error list"

definition perform :: "effect \<Rightarrow> tunnel \<Rightarrow> tunnel" where
  "perform c s = s\<lparr> effects := effects s @ [c] \<rparr>"

definition addListener :: "emitter \<Rightarrow> event_name \<Rightarrow> listener \<Rightarrow> tunnel \<Rightarrow> tunnel" where
  "addListener e n l s = s\<lparr> listeners := listeners s @ [(e, n, l)] \<rparr>"

text \<open>\<open>removeListener\<close> takes out the listener registered under that very event name, if any.\<close>

definition removeListener :: "emitter \<Rightarrow> event_name \<Rightarrow> listener \<Rightarrow> tunnel \<Rightarrow> tunnel" where
  "removeListener e n l s = s\<lparr> listeners := remove1 (e, n, l) (listeners s) \<rparr>"

definition listeners_of :: "emitter \<Rightarrow> event_name \<Rightarrow> tunnel \<Rightarrow> listener list" where
  "listeners_of e n s = map (\<lambda>r. snd (snd r)) (filter (\<lambda>r. fst r = e \<and> fst (snd r) = n) (listeners s))"

text \<open>The \<open>handshake\<close> listener on \<open>request.socket\<close>.\<close>

definition handshake :: "bytes \<Rightarrow> tunnel \<Rightarrow> tunnel" where
  "handshake data s =
     (let sdata = toString data;
          sdata1 = substr sdata 0 (search sdata (CRLF @ CRLF))
      in case slice data (byteLength sdata1) (length data) of
           None \<Rightarrow> s\<lparr> escaped := escaped s @ [OutOfBounds] \<rparr>
         | Some data1 \<Rightarrow>
             (let sdata2 = replace (replace sdata1 (remote_host s) (string_of (tunnel_host s)))
                             (remote_host s) (string_of (tunnel_host s));
                  s1 = (if Socket \<in> failing s
                        then perform (End Socket) (perform (End Request) s)
                        else perform (Write Socket data1) (perform (Write Socket sdata2) s));
                  s2 = addListener Socket EvError OnSocketError s1
              in removeListener RequestSocket EvData Handshake s2))"

text \<open>\<open>detach\<close> and \<open>onUpgrade\<close>, with the relay listeners of call number \<open>k\<close>.\<close>

definition detach :: "nat \<Rightarrow> tunnel \<Rightarrow> tunnel" where
  "detach k s =
     removeListener Socket EvClose (L_close k)
       (removeListener Socket EvData (L_data k)
         (removeListener ReverseProxy EvData (L_r_data k)
           (removeListener ReverseProxy EvClose (L_r_close k) s)))"

definition onUpgrade :: "tunnel \<Rightarrow> tunnel" where
  "onUpgrade s =
     (let k = sessions s;
          s1 = addListener ReverseProxy EvData (L_r_data k) (s\<lparr> sessions := Suc k \<rparr>);
          s2 = addListener Socket EvData (L_data k) s1;
          s3 = addListener ReverseProxy EvEnd (L_r_close k) s2
      in addListener Socket EvEnd (L_close k) s3)"

fun handler :: "listener \<Rightarrow> bytes \<Rightarrow> tunnel \<Rightarrow> tunnel" where
  "handler Handshake data s = handshake data s"
| "handler ErrorListener data s =
     perform (End Socket) (perform EvictClient (removeListener Client EvError ErrorListener s))"
| "handler OnUpgrade data s =
     onUpgrade (perform (SetKeepAlive ReverseProxy True 0)
       (perform (SetNoDelay ReverseProxy True) (perform (SetTimeout ReverseProxy 0) s)))"
| "handler OnResponse data s = addListener Response EvEnd OnResponseEnd s"
| "handler OnResponseEnd data s =
     perform OnFree (perform (SetBusy False) (removeListener Client EvError ErrorListener s))"
| "handler OnSocketError data s = perform (End Request) s"
| "handler (L_r_data k) data s =
     (if Socket \<notin> unwritable s
      then (if Socket \<in> failing s
            then perform (End ReverseProxy) (perform (End Socket) s)
            else perform (Write Socket data) s)
      else s)"
| "handler (L_data k) data s =
     (if ReverseProxy \<in> failing s
      then perform (End Socket) (perform (End ReverseProxy) s)
      else perform (Write ReverseProxy data) s)"
| "handler (L_r_close k) data s = detach k (perform (End Socket) s)"
| "handler (L_close k) data s = detach k (perform (End ReverseProxy) s)"

text \<open>
  \<open>emit\<close> on one of the tunnel's objects: the listeners attached when the event fires
  run in order of attachment, and an exception that leaves one ends the round. An
  \<open>error\<close> event without a listener is thrown.
\<close>

fun run_listeners :: "listener list \<Rightarrow> bytes \<Rightarrow> tunnel \<Rightarrow> tunnel" where
  "run_listeners [] data s = s"
| "run_listeners (l # ls) data s =
     (let s1 = handler l data s
      in if length (escaped s) < length (escaped s1) then s1 else run_listeners ls data s1)"

text \<open>The callback handed to \<open>getClient\<close>.\<close>

definition on_client :: "tunnel \<Rightarrow> tunnel" where
  "on_client s =
     (let s1 = perform (ClientRequest ''GET'' (path s) (upgrade_headers s)) s;
          s2 = addListener Client EvUpgrade OnUpgrade s1;
          s3 = addListener Client EvError ErrorListener s2;
          s4 = addListener Request EvResponse OnResponse s3;
          s5 = perform (SetBusy True) s4;
          s6 = addListener RequestSocket EvData Handshake s5;
          s7 = (if Request \<in> failing s6
                then perform (End Socket) (perform (End Request) s6)
                else perform (Write Request (head s6)) s6)
      in perform Unwatch s7)"

datatype tunnel_event =
    ClientReady
  | Emit emitter event_name bytes
  | Writable emitter bool
  | Fails emitter bool

fun tunnel_step :: "tunnel_event \<Rightarrow> tunnel \<Rightarrow> tunnel" where
  "tunnel_step ClientReady s =
     (if awaiting_client s then on_client (s\<lparr> awaiting_client := False \<rparr>) else s)"
| "tunnel_step (Emit e n data) s =
     (if listeners_of e n s = [] \<and> n = EvError then s\<lparr> escaped := escaped s @ [Uncaught data] \<rparr>
      else run_listeners (listeners_of e n s) data s)"
| "tunnel_step (Writable e b) s =
     s\<lparr> unwritable := (if b then unwritable s - {e} else insert e (unwritable s)) \<rparr>"
| "tunnel_step (Fails e b) s =
     s\<lparr> failing := (if b then insert e (failing s) else failing s - {e}) \<rparr>"

fun tunnel_run :: "tunnel_event list \<Rightarrow> tunnel \<Rightarrow> tunnel" where
  "tunnel_run [] s = s"
| "tunnel_run (ev # evs) s = tunnel_run evs (tunnel_step ev s)"

text \<open>
  \<open>proxyWebSocketRequest(port, server, host, data)\<close>. The request, the socket and the
  head bytes are read from the proxy object; the pool behind \<open>manager\<close> is another
  module, so acquiring a client is an effect and its callback the event \<open>ClientReady\<close>.
  Reading \<open>headers.upgrade.toLowerCase()\<close> on a request with no such header throws.
\<close>

definition idle :: "request \<Rightarrow> bytes \<Rightarrow> tunnel" where
  "idle rq head_bytes = \<lparr> tunnel_host = None, remote_host = [], upgrade_headers = headers rq, path = url rq,
     head = head_bytes, awaiting_client = False, listeners = [], unwritable = {}, failing = {}, sessions = 0,
     effects = [], escaped = [] \<rparr>"

definition proxyWebSocketRequest ::
  "request \<Rightarrow> bytes \<Rightarrow> nat \<Rightarrow> string \<Rightarrow> string option \<Rightarrow> js_error + tunnel" where
  "proxyWebSocketRequest rq head_bytes port_arg server host_arg =
     (let s = idle rq head_bytes in
      if http_method rq \<noteq> ''GET'' then Inr s
      else
        (case map_of (upgrade_headers s) ''upgrade'' of
           None \<Rightarrow> Inl TypeError
         | Some u \<Rightarrow>
             if toLowerCase u \<noteq> ''websocket'' then Inr s
             else
               (let s1 = perform (SetEncoding Socket ''utf8'')
                           (perform (SetNoDelay Socket True) (perform (SetTimeout Socket 0) s));
                    host1 = (case host_arg of
                               None \<Rightarrow> map_of (upgrade_headers s1) ''Host''
                             | Some h \<Rightarrow> if h = [] then map_of (upgrade_headers s1) ''Host'' else Some h);
                    remote = server @ (if port_arg = 80 then [] else '':'' @ decimal port_arg);
                    hs1 = set_header (upgrade_headers s1) ''Host'' remote;
                    hs2 = set_header hs1 ''Origin'' (''http://'' @ remote);
                    s2 = s1\<lparr> tunnel_host := host1, remote_host := remote, upgrade_headers := hs2 \<rparr>;
                    s3 = perform GetClient (perform (GetPool port_arg server) s2)
                in Inr (s3\<lparr> awaiting_client := True \<rparr>))))"

section \<open>What is observed of a proxy cycle\<close>

text \<open>
  The calls on the outbound request's write side, the body chunks written to the inbound
  response, the number of \<open>res.end()\<close> calls, and the event that delivers a 304.
\<close>

fun is_outbound :: "action \<Rightarrow> bool" where
  "is_outbound (ProxyWrite chunk) = True"
| "is_outbound ProxyEnd = True"
| "is_outbound a = False"

definition outbound_calls :: "action list \<Rightarrow> action list" where
  "outbound_calls as = filter is_outbound as"

fun body_of :: "action \<Rightarrow> string list" where
  "body_of (ResWrite chunk) = [chunk]"
| "body_of a = []"

definition body_writes :: "action list \<Rightarrow> string list" where
  "body_writes as = concat (map body_of as)"

definition ends :: "action list \<Rightarrow> nat" where
  "ends as = count_list as ResEnd"

fun is_304 :: "event \<Rightarrow> bool" where
  "is_304 (BackendResponse status hs) = (status = 304)"
| "is_304 ev = False"

fun is_error :: "event \<Rightarrow> bool" where
  "is_error (BackendError err) = True"
| "is_error ev = False"

text \<open>A cycle on which no listener of \<open>proxyRequest\<close> is attached.\<close>

definition quiet :: "cycle \<Rightarrow> bool" where
  "quiet s = (\<not> response_callback s \<and> \<not> error_listener s \<and> \<not> response_listeners s
     \<and> \<not> proxy_listeners s \<and> \<not> forward_listeners s)"

section \<open>What is observed of a tunnel\<close>

text \<open>A tunnel on which nothing is attached and no client is awaited.\<close>

definition dormant :: "tunnel \<Rightarrow> bool" where
  "dormant s = (listeners s = [] \<and> \<not> awaiting_client s)"

text \<open>A byte that is a character of its own in UTF-8.\<close>

definition ascii :: "char \<Rightarrow> bool" where
  "ascii c = ((of_char c :: nat) < 128)"

section \<open>Example inputs\<close>

definition get_request :: request where
  "get_request = \<lparr> http_method = ''GET'', url = ''/index.html'',
     headers = [(''host'', ''www.example.com''), (''connection'', ''keep-alive'')] \<rparr>"

definition head_request :: request where
  "head_request = \<lparr> http_method = ''HEAD'', url = ''/index.html'',
     headers = [(''host'', ''www.example.com''), (''connection'', ''keep-alive'')] \<rparr>"

definition plain_env :: env where
  "plain_env = \<lparr> proxyTable = None, forward = None, proxyError_listener = False,
     production = False, stringify = (\<lambda>err. ''{code:'' @ err @ ''}'') \<rparr>"

definition production_env :: env where
  "production_env = plain_env\<lparr> production := True \<rparr>"

definition listening_env :: env where
  "listening_env = plain_env\<lparr> proxyError_listener := True \<rparr>"

definition empty_table_env :: env where
  "empty_table_env = plain_env\<lparr> proxyTable := Some (\<lambda>rq. None) \<rparr>"

definition forward_env :: env where
  "forward_env = plain_env\<lparr> forward := Some \<lparr> host = ''127.0.0.1'', port = 9001 \<rparr> \<rparr>"

text \<open>
  A proxy on \<open>localhost:8080\<close> in front of a backend on \<open>localhost\<close>, port 80: the
  upgrade request of a client, a request that is not a WebSocket upgrade, the text of the
  backend's handshake response and the opaque bytes that follow it (which themselves
  contain a double line terminator), and the tunnel after \<open>proxyWebSocketRequest\<close> and
  after the pool's callback.
\<close>

definition upgrade_request :: request where
  "upgrade_request = \<lparr> http_method = ''GET'', url = ''/chat'',
     headers = [(''upgrade'', ''WebSocket''), (''connection'', ''Upgrade''),
                (''Host'', ''localhost:8080''), (''Origin'', ''http://localhost:8080'')] \<rparr>"

definition post_request :: request where
  "post_request = \<lparr> http_method = ''POST'', url = ''/chat'',
     headers = [(''upgrade'', ''WebSocket''), (''connection'', ''Upgrade'')] \<rparr>"

definition tls_upgrade_request :: request where
  "tls_upgrade_request = \<lparr> http_method = ''GET'', url = ''/'',
     headers = [(''upgrade'', ''TLS/1.0''), (''connection'', ''Upgrade'')] \<rparr>"

definition handshake_text :: string where
  "handshake_text = ''HTTP/1.1 101 Handshake'' @ CRLF
     @ ''Sec-WebSocket-Origin: http://localhost'' @ CRLF
     @ ''Sec-WebSocket-Location: ws://localhost/chat''"

definition checksum :: bytes where
  "checksum = [CHR 0x9A, CHR 0x00, CHR 0xFF, CHR 0x0D, CHR 0x0A, CHR 0x0D, CHR 0x0A, CHR 0x41]"

definition started :: tunnel where
  "started = \<lparr> tunnel_host = Some ''localhost:8080'', remote_host = ''localhost'',
     upgrade_headers = [(''upgrade'', ''WebSocket''), (''connection'', ''Upgrade''),
                        (''Host'', ''localhost''), (''Origin'', ''http://localhost'')],
     path = ''/chat'', head = [], awaiting_client = True, listeners = [],
     unwritable = {}, failing = {}, sessions = 0,
     effects = [SetTimeout Socket 0, SetNoDelay Socket True, SetEncoding Socket ''utf8'',
                GetPool 80 ''localhost'', GetClient],
     escaped = [] \<rparr>"

definition requested :: tunnel where
  "requested = \<lparr> tunnel_host = Some ''localhost:8080'', remote_host = ''localhost'',
     upgrade_headers = [(''upgrade'', ''WebSocket''), (''connection'', ''Upgrade''),
                        (''Host'', ''localhost''), (''Origin'', ''http://localhost'')],
     path = ''/chat'', head = [], awaiting_client = False,
     listeners = [(Client, EvUpgrade, OnUpgrade), (Client, EvError, ErrorListener),
                  (Request, EvResponse, OnResponse), (RequestSocket, EvData, Handshake)],
     unwritable = {}, failing = {}, sessions = 0,
     effects = [SetTimeout Socket 0, SetNoDelay Socket True, SetEncoding Socket ''utf8'',
                GetPool 80 ''localhost'', GetClient,
                ClientRequest ''GET'' ''/chat''
                  [(''upgrade'', ''WebSocket''), (''connection'', ''Upgrade''),
                   (''Host'', ''localhost''), (''Origin'', ''http://localhost'')],
                SetBusy True, Write Request [], Unwatch],
     escaped = [] \<rparr>"

section \<open>Properties of the proxy cycle\<close>

lemmas handler_defs = issue_def throw_def on_req_data_def on_req_end_def on_response_def
  on_response_data_def on_response_end_def proxyError_def Let_def

lemmas connect_defs = connect_def issue_def start_def force_close_def forwardRequest_def Let_def

lemma req_step: "req (step env ev s) = req s"
  by (cases ev) (auto simp: handler_defs)

lemma req_run: "req (run env evs s) = req s"
  by (induction evs arbitrary: s) (simp_all add: req_step)

lemma req_resume_buffer: "req (resume_buffer env b s) = req s"
  by (cases b) (simp_all add: resume_buffer_def req_run throw_def)

subsection \<open>Route miss\<close>

lemma quiet_step: "quiet s \<Longrightarrow> quiet (step env ev s) \<and> issued (step env ev s) = issued s"
  by (cases ev) (auto simp: quiet_def throw_def)

lemma quiet_run: "quiet s \<Longrightarrow> issued (run env evs s) = issued s"
proof (induction evs arbitrary: s)
  case Nil
  then show ?case by simp
next
  case (Cons ev evs)
  from quiet_step [OF Cons.prems, of env ev] Cons.IH [of "step env ev s"]
  show ?case by simp
qed

lemma quiet_miss: "quiet (issue ResEnd (issue (ResWriteHead 404 []) (start rq)))"
  by (simp add: quiet_def issue_def start_def)

text \<open>
  C3. When the routing table decides (a table is configured and no truthy host argument
  is given) and it finds no location, \<open>proxyRequest\<close> issues \<open>writeHead(404)\<close> and
  \<open>end()\<close> on the inbound response and nothing else: no body, no outbound request, no
  forward copy, and no listener is left that a later event could wake.
\<close>

theorem C3_route_miss:
  assumes "proxyTable env = Some table" and "\<not> truthy host_arg" and "table rq = None"
  shows "issued (proxyRequest env rq port_arg host_arg buffer_arg) = [ResWriteHead 404 [], ResEnd]
    \<and> issued (run env evs (proxyRequest env rq port_arg host_arg buffer_arg))
        = [ResWriteHead 404 [], ResEnd]"
proof -
  have miss: "proxyRequest env rq port_arg host_arg buffer_arg
      = issue ResEnd (issue (ResWriteHead 404 []) (start rq))"
    using assms by (simp add: proxyRequest_def resolve_def)
  from quiet_run [OF quiet_miss, of env evs rq] miss show ?thesis
    by (simp add: issue_def start_def)
qed

theorem C3_route_miss_witness:
  "proxyTable empty_table_env = Some (\<lambda>rq. None) \<and> \<not> truthy Undefined
   \<and> issued (proxyRequest empty_table_env get_request Undefined Undefined Undefined)
       = [ResWriteHead 404 [], ResEnd]
   \<and> issued (run empty_table_env [ReqData ''a=1'', ReqEnd, BackendError ''ECONNRESET'']
        (proxyRequest empty_table_env get_request Undefined Undefined Undefined))
       = [ResWriteHead 404 [], ResEnd]"
  using C3_route_miss [of empty_table_env "\<lambda>rq. None" Undefined get_request Undefined Undefined
      "[ReqData ''a=1'', ReqEnd, BackendError ''ECONNRESET'']"]
  by (simp add: empty_table_env_def plain_env_def)

subsection \<open>HEAD requests\<close>

lemma head_step:
  "http_method (req s) = ''HEAD'' \<Longrightarrow> body_writes (issued (step env ev s)) = body_writes (issued s)"
  by (cases ev) (auto simp: handler_defs body_writes_def)

lemma head_run:
  "http_method (req s) = ''HEAD'' \<Longrightarrow> body_writes (issued (run env evs s)) = body_writes (issued s)"
proof (induction evs arbitrary: s)
  case Nil
  then show ?case by simp
next
  case (Cons ev evs)
  have "http_method (req (step env ev s)) = ''HEAD''"
    using Cons.prems by (simp add: req_step)
  from Cons.IH [OF this] head_step [OF Cons.prems, of env ev] show ?case by simp
qed

lemma connect_method: "http_method (req (connect env rq p h)) = http_method rq"
  by (simp add: connect_defs split: option.splits)

lemma connect_body: "body_writes (issued (connect env rq p h)) = []"
  by (simp add: connect_defs body_writes_def split: option.splits)

lemma head_resume:
  "http_method (req s) = ''HEAD'' \<Longrightarrow>
     body_writes (issued (resume_buffer env b s)) = body_writes (issued s)"
  by (cases b) (simp_all add: resume_buffer_def head_run throw_def)

lemma proxyRequest_head:
  assumes "http_method rq = ''HEAD''"
  shows "http_method (req (proxyRequest env rq p h b)) = ''HEAD''
    \<and> body_writes (issued (proxyRequest env rq p h b)) = []"
proof (cases "resolve env rq p h b")
  case None
  then show ?thesis using assms
    by (simp add: proxyRequest_def issue_def start_def body_writes_def)
next
  case (Some t)
  obtain p1 h1 b1 where t: "t = (p1, h1, b1)" by (cases t)
  have m: "http_method (req (connect env rq p1 h1)) = ''HEAD''"
    using assms by (simp add: connect_method)
  from head_resume [OF m, of env b1] Some t m show ?thesis
    by (simp add: proxyRequest_def req_resume_buffer connect_body)
qed

text \<open>
  C5. For a request whose method is \<open>HEAD\<close>, whatever the arguments of \<open>proxyRequest\<close>
  and whatever events follow (backend data, backend errors, replayed request events), no
  \<open>res.write\<close> is ever issued: the list of body chunks written to the inbound response
  stays empty on the success path, on the error path and on the route miss.
\<close>

theorem C5_head_no_body:
  assumes "http_method rq = ''HEAD''"
  shows "body_writes (issued (run env evs (proxyRequest env rq port_arg host_arg buffer_arg))) = []"
proof -
  from proxyRequest_head [OF assms, of env port_arg host_arg buffer_arg]
  have m: "http_method (req (proxyRequest env rq port_arg host_arg buffer_arg)) = ''HEAD''"
    and b: "body_writes (issued (proxyRequest env rq port_arg host_arg buffer_arg)) = []"
    by simp_all
  from head_run [OF m, of env evs] b show ?thesis by simp
qed

theorem C5_head_no_body_witness:
  "http_method head_request = ''HEAD''
   \<and> body_writes (issued (run plain_env
        [BackendResponse 200 [(''content-length'', ''5'')], BackendData ''hello'', BackendError ''ECONNRESET'']
        (proxyRequest plain_env head_request (Num 8080) (Str ''localhost'') Undefined))) = []"
  using C5_head_no_body [of head_request plain_env
      "[BackendResponse 200 [(''content-length'', ''5'')], BackendData ''hello'', BackendError ''ECONNRESET'']"
      "Num 8080" "Str ''localhost''" Undefined]
  by (simp add: head_request_def)

subsection \<open>The example calls, evaluated\<close>

lemma plain_env_fields:
  "proxyTable plain_env = None" "forward plain_env = None" "\<not> proxyError_listener plain_env"
  "\<not> production plain_env" "stringify plain_env e = ''{code:'' @ e @ ''}''"
  by (simp_all add: plain_env_def)

lemma listening_env_fields:
  "proxyTable listening_env = None" "forward listening_env = None" "proxyError_listener listening_env"
  "\<not> production listening_env" "stringify listening_env e = ''{code:'' @ e @ ''}''"
  by (simp_all add: listening_env_def plain_env_def)

lemma production_env_fields:
  "proxyTable production_env = None" "forward production_env = None"
  "\<not> proxyError_listener production_env"
  "production production_env" "stringify production_env e = ''{code:'' @ e @ ''}''"
  by (simp_all add: production_env_def plain_env_def)

lemmas example_envs = plain_env_fields listening_env_fields production_env_fields

lemma set_header_twice: "set_header (set_header hs k v) k v = set_header hs k v"
  by (simp add: set_header_def)

lemma connect_headers:
  "headers (req (connect env rq p h)) = set_header (headers rq) ''connection'' ''close''"
  by (simp add: connect_defs set_header_twice split: option.splits)

text \<open>A call with an explicit target, no routing table, no forward target and no buffer.\<close>

lemma direct_call:
  assumes "proxyTable env = None" and "forward env = None"
  shows "proxyRequest env rq p h Undefined =
    \<lparr> req = rq\<lparr> headers := set_header (headers rq) ''connection'' ''close'' \<rparr>,
      errState = False, response_callback = True, error_listener = True,
      response_listeners = False, proxy_listeners = True, forward_listeners = False,
      forward_error_listener = False,
      issued = [HttpRequest h p (http_method rq) (url rq)
                  (set_header (headers rq) ''connection'' ''close'')],
      thrown = [] \<rparr>"
  using assms by (simp add: proxyRequest_def resolve_def resume_buffer_def connect_defs)

lemma get_request_close:
  "set_header (headers get_request) ''connection'' ''close''
     = [(''host'', ''www.example.com''), (''connection'', ''close'')]"
  by (simp add: get_request_def set_header_def)

lemma head_request_close:
  "set_header (headers head_request) ''connection'' ''close''
     = [(''host'', ''www.example.com''), (''connection'', ''close'')]"
  by (simp add: head_request_def set_header_def)

lemma get_call:
  assumes "proxyTable env = None" and "forward env = None"
  shows "proxyRequest env get_request (Num 8080) (Str ''localhost'') Undefined =
    \<lparr> req = \<lparr> http_method = ''GET'', url = ''/index.html'',
              headers = [(''host'', ''www.example.com''), (''connection'', ''close'')] \<rparr>,
      errState = False, response_callback = True, error_listener = True,
      response_listeners = False, proxy_listeners = True, forward_listeners = False,
      forward_error_listener = False,
      issued = [HttpRequest (Str ''localhost'') (Num 8080) ''GET'' ''/index.html''
                  [(''host'', ''www.example.com''), (''connection'', ''close'')]],
      thrown = [] \<rparr>"
  by (simp add: direct_call [OF assms] get_request_close) (simp add: get_request_def)

lemma head_call:
  assumes "proxyTable env = None" and "forward env = None"
  shows "proxyRequest env head_request (Num 8080) (Str ''localhost'') Undefined =
    \<lparr> req = \<lparr> http_method = ''HEAD'', url = ''/index.html'',
              headers = [(''host'', ''www.example.com''), (''connection'', ''close'')] \<rparr>,
      errState = False, response_callback = True, error_listener = True,
      response_listeners = False, proxy_listeners = True, forward_listeners = False,
      forward_error_listener = False,
      issued = [HttpRequest (Str ''localhost'') (Num 8080) ''HEAD'' ''/index.html''
                  [(''host'', ''www.example.com''), (''connection'', ''close'')]],
      thrown = [] \<rparr>"
  by (simp add: direct_call [OF assms] head_request_close) (simp add: head_request_def)

lemmas plain_call = get_call [OF plain_env_fields(1) plain_env_fields(2)]

lemmas listening_call = get_call [OF listening_env_fields(1) listening_env_fields(2)]

lemmas production_call = get_call [OF production_env_fields(1) production_env_fields(2)]

lemmas production_head_call = head_call [OF production_env_fields(1) production_env_fields(2)]

subsection \<open>The error-state flag\<close>

lemma ends_append: "ends (xs @ ys) = ends xs + ends ys"
  by (simp add: ends_def)

lemma outbound_append: "outbound_calls (xs @ ys) = outbound_calls xs @ outbound_calls ys"
  by (simp add: outbound_calls_def)

lemma flagged_step:
  "errState s \<Longrightarrow> errState (step env ev s)
     \<and> outbound_calls (issued (step env ev s)) = outbound_calls (issued s)"
  by (cases ev) (auto simp: handler_defs outbound_calls_def)

lemma flagged_run:
  "errState s \<Longrightarrow> errState (run env evs s)
     \<and> outbound_calls (issued (run env evs s)) = outbound_calls (issued s)"
proof (induction evs arbitrary: s)
  case Nil
  then show ?case by simp
next
  case (Cons ev evs)
  from flagged_step [OF Cons.prems, of env ev]
  have e: "errState (step env ev s)"
    and o: "outbound_calls (issued (step env ev s)) = outbound_calls (issued s)"
    by simp_all
  from Cons.IH [OF e] o show ?case by simp
qed

lemma error_listener_step: "\<not> error_listener s \<Longrightarrow> \<not> error_listener (step env ev s)"
  by (cases ev) (auto simp: handler_defs)

text \<open>After the error handler has run, no event but a 304 head ends the response.\<close>

lemma handled_step:
  "errState s \<Longrightarrow> \<not> error_listener s \<Longrightarrow> \<not> is_304 ev \<Longrightarrow>
     ends (issued (step env ev s)) = ends (issued s)"
  by (cases ev) (auto simp: handler_defs ends_def)

lemma handled_run:
  "errState s \<Longrightarrow> \<not> error_listener s \<Longrightarrow> \<not> list_ex is_304 evs \<Longrightarrow>
     ends (issued (run env evs s)) = ends (issued s)"
proof (induction evs arbitrary: s)
  case Nil
  then show ?case by simp
next
  case (Cons ev evs)
  have e: "errState (step env ev s)" using Cons.prems(1) flagged_step by blast
  have l: "\<not> error_listener (step env ev s)" using Cons.prems(2) error_listener_step by blast
  have n: "\<not> list_ex is_304 evs" and n1: "\<not> is_304 ev" using Cons.prems(3) by simp_all
  from Cons.IH [OF e l n] handled_step [OF Cons.prems(1) Cons.prems(2) n1, of env]
  show ?case by simp
qed

text \<open>After the response-end handler has run, only another response end could end it again.\<close>

lemma ended_step:
  "\<not> error_listener s \<Longrightarrow> ev \<noteq> BackendEnd \<Longrightarrow> \<not> is_304 ev \<Longrightarrow>
     ends (issued (step env ev s)) = ends (issued s)"
  by (cases ev) (auto simp: handler_defs ends_def)

lemma ended_run:
  "\<not> error_listener s \<Longrightarrow> count_list evs BackendEnd = 0 \<Longrightarrow> \<not> list_ex is_304 evs \<Longrightarrow>
     ends (issued (run env evs s)) = ends (issued s)"
proof (induction evs arbitrary: s)
  case Nil
  then show ?case by simp
next
  case (Cons ev evs)
  have l: "\<not> error_listener (step env ev s)" using Cons.prems(1) error_listener_step by blast
  have ne: "ev \<noteq> BackendEnd" and c: "count_list evs BackendEnd = 0"
    using Cons.prems(2) by (auto split: if_splits)
  have n: "\<not> list_ex is_304 evs" and n1: "\<not> is_304 ev" using Cons.prems(3) by simp_all
  from Cons.IH [OF l c n] ended_step [OF Cons.prems(1) ne n1, of env]
  show ?case by simp
qed

lemma step_ends_cases:
  assumes "\<not> is_304 ev"
  shows "ends (issued (step env ev s)) = ends (issued s)
    \<or> (ends (issued (step env ev s)) = ends (issued s) + 1 \<and> \<not> error_listener (step env ev s)
        \<and> (ev = BackendEnd \<or> errState (step env ev s)))"
  using assms by (cases ev) (auto simp: handler_defs ends_def)

lemma one_end_run:
  "count_list evs BackendEnd \<le> 1 \<Longrightarrow> \<not> list_ex is_304 evs \<Longrightarrow>
     ends (issued (run env evs s)) \<le> ends (issued s) + 1"
proof (induction evs arbitrary: s)
  case Nil
  then show ?case by simp
next
  case (Cons ev evs)
  have n: "\<not> list_ex is_304 evs" and n1: "\<not> is_304 ev" using Cons.prems(2) by simp_all
  have c: "count_list evs BackendEnd \<le> 1" using Cons.prems(1) by (auto split: if_splits)
  from step_ends_cases [OF n1, of env s] show ?case
  proof (elim disjE conjE)
    assume "ends (issued (step env ev s)) = ends (issued s)"
    with Cons.IH [OF c n, of "step env ev s"] show ?thesis by simp
  next
    assume a: "ends (issued (step env ev s)) = ends (issued s) + 1"
      and l: "\<not> error_listener (step env ev s)"
      and "ev = BackendEnd" 
    then have "count_list evs BackendEnd = 0" using Cons.prems(1) by simp
    from ended_run [OF l this n, of env] a show ?thesis by simp
  next
    assume a: "ends (issued (step env ev s)) = ends (issued s) + 1"
      and l: "\<not> error_listener (step env ev s)"
      and e: "errState (step env ev s)"
    from handled_run [OF e l n, of env] a show ?thesis by simp
  qed
qed

lemma request_events_ends:
  "ends (issued (run env (map req_event captured) s)) = ends (issued s)"
proof (induction captured arbitrary: s)
  case Nil
  then show ?case by simp
next
  case (Cons c cs)
  have "ends (issued (step env (req_event c) s)) = ends (issued s)"
    by (cases c) (auto simp: handler_defs ends_def)
  with Cons.IH [of "step env (req_event c) s"] show ?case by simp
qed

lemma resume_ends: "ends (issued (resume_buffer env b s)) = ends (issued s)"
  by (cases b) (simp_all add: resume_buffer_def throw_def request_events_ends)

lemma connect_ends: "ends (issued (connect env rq p h)) = 0"
  by (simp add: connect_defs ends_def split: option.splits)

lemma proxyRequest_one_end:
  assumes "count_list evs BackendEnd \<le> 1" and "\<not> list_ex is_304 evs"
  shows "ends (issued (run env evs (proxyRequest env rq p h b))) \<le> 1"
proof (cases "resolve env rq p h b")
  case None
  then have m: "proxyRequest env rq p h b = issue ResEnd (issue (ResWriteHead 404 []) (start rq))"
    by (simp add: proxyRequest_def)
  from quiet_run [OF quiet_miss, of env evs rq] show ?thesis
    by (simp add: m ends_def issue_def start_def)
next
  case (Some t)
  obtain p1 h1 b1 where t: "t = (p1, h1, b1)" by (cases t)
  have "ends (issued (proxyRequest env rq p h b)) = 0"
    using Some t by (simp add: proxyRequest_def resume_ends connect_ends)
  with one_end_run [OF assms, of env "proxyRequest env rq p h b"] show ?thesis by simp
qed

lemma request_event_flags:
  "errState (step env (req_event c) s) = errState s
   \<and> error_listener (step env (req_event c) s) = error_listener s
   \<and> response_callback (step env (req_event c) s) = response_callback s
   \<and> response_listeners (step env (req_event c) s) = response_listeners s"
  by (cases c) (auto simp: handler_defs)

lemma request_events_flags:
  "errState (run env (map req_event cs) s) = errState s
   \<and> error_listener (run env (map req_event cs) s) = error_listener s
   \<and> response_callback (run env (map req_event cs) s) = response_callback s
   \<and> response_listeners (run env (map req_event cs) s) = response_listeners s"
proof (induction cs arbitrary: s)
  case Nil
  then show ?case by simp
next
  case (Cons c cs)
  from Cons.IH [of "step env (req_event c) s"] request_event_flags [of env c s]
  show ?case by simp
qed

lemma resume_flags:
  "errState (resume_buffer env b s) = errState s
   \<and> error_listener (resume_buffer env b s) = error_listener s
   \<and> response_callback (resume_buffer env b s) = response_callback s
   \<and> response_listeners (resume_buffer env b s) = response_listeners s"
  by (cases b) (simp_all add: resume_buffer_def throw_def request_events_flags)

lemma connect_flags:
  "\<not> errState (connect env rq p h) \<and> error_listener (connect env rq p h)
   \<and> response_callback (connect env rq p h) \<and> \<not> response_listeners (connect env rq p h)"
  by (simp add: connect_defs split: option.splits)

lemma proxyRequest_fresh: "\<not> errState (proxyRequest env rq p h b)"
proof (cases "resolve env rq p h b")
  case None
  then show ?thesis by (simp add: proxyRequest_def issue_def start_def)
next
  case (Some t)
  obtain p1 h1 b1 where "t = (p1, h1, b1)" by (cases t)
  with Some show ?thesis by (simp add: proxyRequest_def resume_flags connect_flags)
qed

text \<open>The handler is a once-listener: whenever the flag is set, it is detached.\<close>

lemma once_step:
  "errState s \<longrightarrow> \<not> error_listener s \<Longrightarrow>
     errState (step env ev s) \<longrightarrow> \<not> error_listener (step env ev s)"
  by (cases ev) (auto simp: handler_defs)

lemma once_run:
  "errState s \<longrightarrow> \<not> error_listener s \<Longrightarrow>
     errState (run env evs s) \<longrightarrow> \<not> error_listener (run env evs s)"
proof (induction evs arbitrary: s)
  case Nil
  then show ?case by simp
next
  case (Cons ev evs)
  from Cons.IH [OF once_step [OF Cons.prems, of env ev]] show ?case by simp
qed

lemma once_cycle:
  "errState (run env evs (proxyRequest env rq p h b)) \<Longrightarrow>
     \<not> error_listener (run env evs (proxyRequest env rq p h b))"
  using once_run [of "proxyRequest env rq p h b" env evs] proxyRequest_fresh [of env rq p h b]
  by simp

text \<open>
  C1, as the code has it, for every state \<open>s\<close> a cycle reaches. Once \<open>errState\<close> is
  set it stays set, and from then on no event makes the cycle write to or end the outbound
  request, a backend response end issues nothing, and no event other than a 304 response
  head ends the inbound response. The error handler, which sets the flag, ends the inbound
  response exactly once when no \<open>proxyError\<close> listener is registered and not at all when
  one is (the listener then owns the response). So in a cycle with at most one backend
  response end and no 304 head, at most one \<open>res.end()\<close> is issued, in whichever order
  the response end and the error arrive. Nothing is said here about body chunks that
  arrive after the flag is set, nor about an error after a 304.
\<close>

theorem C1_error_state:
  assumes "s = run env earlier (proxyRequest env rq port_arg host_arg buffer_arg)"
  shows "(errState s \<longrightarrow>
      errState (run env evs s)
      \<and> outbound_calls (issued (run env evs s)) = outbound_calls (issued s)
      \<and> issued (step env BackendEnd s) = issued s
      \<and> (\<not> list_ex is_304 evs \<longrightarrow> ends (issued (run env evs s)) = ends (issued s)))
   \<and> (error_listener s \<longrightarrow>
        errState (step env (BackendError err) s)
        \<and> \<not> error_listener (step env (BackendError err) s)
        \<and> ends (issued (step env (BackendError err) s))
            = ends (issued s) + (if proxyError_listener env then 0 else 1))
   \<and> (count_list earlier BackendEnd \<le> 1 \<and> \<not> list_ex is_304 earlier \<longrightarrow> ends (issued s) \<le> 1)"
proof (intro conjI impI)
  assume "errState s"
  then show "errState (run env evs s)"
    and "outbound_calls (issued (run env evs s)) = outbound_calls (issued s)"
    using flagged_run by blast+
next
  assume "errState s"
  then show "issued (step env BackendEnd s) = issued s"
    by (simp add: on_response_end_def)
next
  assume e: "errState s" and n: "\<not> list_ex is_304 evs"
  from e assms have "\<not> error_listener s" using once_cycle by simp
  from handled_run [OF e this n] show "ends (issued (run env evs s)) = ends (issued s)" .
next
  assume l: "error_listener s"
  then show "errState (step env (BackendError err) s)"
    and "\<not> error_listener (step env (BackendError err) s)"
    and "ends (issued (step env (BackendError err) s))
            = ends (issued s) + (if proxyError_listener env then 0 else 1)"
    by (simp_all add: handler_defs ends_def)
next
  assume "count_list earlier BackendEnd \<le> 1 \<and> \<not> list_ex is_304 earlier"
  then show "ends (issued s) \<le> 1"
    using proxyRequest_one_end assms by blast
qed

theorem C1_counterexample:
  "errState (run listening_env [BackendError ''ECONNREFUSED'']
      (proxyRequest listening_env get_request (Num 8080) (Str ''localhost'') Undefined))
   \<and> ends (issued (run listening_env [BackendError ''ECONNREFUSED'']
      (proxyRequest listening_env get_request (Num 8080) (Str ''localhost'') Undefined))) = 0
   \<and> issued (run plain_env [BackendError ''ECONNREFUSED'']
      (proxyRequest plain_env get_request (Num 8080) (Str ''localhost'') Undefined))
     = [HttpRequest (Str ''localhost'') (Num 8080) ''GET'' ''/index.html''
          [(''host'', ''www.example.com''), (''connection'', ''close'')],
        EmitProxyError ''ECONNREFUSED'',
        ResWriteHead 500 [(''Content-Type'', ''text/plain'')],
        ResWrite ''An error has occurred: {code:ECONNREFUSED}'',
        ResEnd]"
proof (intro conjI)
  show "errState (run listening_env [BackendError ''ECONNREFUSED'']
      (proxyRequest listening_env get_request (Num 8080) (Str ''localhost'') Undefined))"
    by (simp add: listening_call handler_defs example_envs)
  show "ends (issued (run listening_env [BackendError ''ECONNREFUSED'']
      (proxyRequest listening_env get_request (Num 8080) (Str ''localhost'') Undefined))) = 0"
    by (simp add: listening_call handler_defs ends_def example_envs)
  show "issued (run plain_env [BackendError ''ECONNREFUSED'']
      (proxyRequest plain_env get_request (Num 8080) (Str ''localhost'') Undefined))
     = [HttpRequest (Str ''localhost'') (Num 8080) ''GET'' ''/index.html''
          [(''host'', ''www.example.com''), (''connection'', ''close'')],
        EmitProxyError ''ECONNREFUSED'',
        ResWriteHead 500 [(''Content-Type'', ''text/plain'')],
        ResWrite ''An error has occurred: {code:ECONNREFUSED}'',
        ResEnd]"
    by (simp add: plain_call handler_defs example_envs)
qed

lemma reset_cycle:
  "run plain_env [BackendResponse 200 [], BackendError ''ECONNRESET'']
      (proxyRequest plain_env get_request (Num 8080) (Str ''localhost'') Undefined) =
    \<lparr> req = \<lparr> http_method = ''GET'', url = ''/index.html'',
              headers = [(''host'', ''www.example.com''), (''connection'', ''close'')] \<rparr>,
      errState = True, response_callback = False, error_listener = False,
      response_listeners = True, proxy_listeners = True, forward_listeners = False,
      forward_error_listener = False,
      issued = [HttpRequest (Str ''localhost'') (Num 8080) ''GET'' ''/index.html''
                  [(''host'', ''www.example.com''), (''connection'', ''close'')],
                ResWriteHead 200 [],
                EmitProxyError ''ECONNRESET'',
                ResWriteHead 500 [(''Content-Type'', ''text/plain'')],
                ResWrite ''An error has occurred: {code:ECONNRESET}'',
                ResEnd],
      thrown = [] \<rparr>"
  by (simp add: plain_call handler_defs example_envs truthy_header_def)

theorem C1_error_state_witness:
  "errState (run plain_env [BackendResponse 200 [], BackendError ''ECONNRESET'']
      (proxyRequest plain_env get_request (Num 8080) (Str ''localhost'') Undefined))
   \<and> error_listener (run plain_env []
        (proxyRequest plain_env get_request (Num 8080) (Str ''localhost'') Undefined))
   \<and> outbound_calls (issued (run plain_env [ReqData ''late'', BackendEnd, ReqEnd]
        (run plain_env [BackendResponse 200 [], BackendError ''ECONNRESET'']
          (proxyRequest plain_env get_request (Num 8080) (Str ''localhost'') Undefined)))) = []
   \<and> ends (issued (run plain_env [ReqData ''late'', BackendEnd, ReqEnd]
        (run plain_env [BackendResponse 200 [], BackendError ''ECONNRESET'']
          (proxyRequest plain_env get_request (Num 8080) (Str ''localhost'') Undefined)))) = 1
   \<and> ends (issued (step plain_env (BackendError ''ECONNRESET'')
        (run plain_env []
          (proxyRequest plain_env get_request (Num 8080) (Str ''localhost'') Undefined)))) = 1
   \<and> ends (issued (run plain_env [BackendResponse 200 [], BackendError ''ECONNRESET'']
        (proxyRequest plain_env get_request (Num 8080) (Str ''localhost'') Undefined))) \<le> 1
   \<and> ends (issued (run plain_env [BackendResponse 200 [], BackendEnd, BackendError ''ECONNRESET'']
        (proxyRequest plain_env get_request (Num 8080) (Str ''localhost'') Undefined))) \<le> 1"
proof -
  let ?s0 = "proxyRequest plain_env get_request (Num 8080) (Str ''localhost'') Undefined"
  let ?sE = "run plain_env [BackendResponse 200 [], BackendError ''ECONNRESET''] ?s0"
  have e: "errState ?sE"
    and o: "outbound_calls (issued ?sE) = []" and n: "ends (issued ?sE) = 1"
    by (simp_all only: reset_cycle) (simp_all add: outbound_calls_def ends_def)
  have l0: "error_listener (run plain_env [] ?s0)" and n0: "ends (issued (run plain_env [] ?s0)) = 0"
    by (simp_all add: plain_call ends_def)
  have f: "\<not> proxyError_listener plain_env" by (simp add: plain_env_fields)
  have a: "\<not> list_ex is_304 [ReqData ''late'', BackendEnd, ReqEnd]"
    and b: "\<not> list_ex is_304 [BackendResponse 200 [], BackendError ''ECONNRESET'']"
    and c: "count_list [BackendResponse 200 [], BackendError ''ECONNRESET''] BackendEnd \<le> 1"
    by simp_all
  from C1_error_state [of ?sE plain_env "[BackendResponse 200 [], BackendError ''ECONNRESET'']"
      get_request "Num 8080" "Str ''localhost''" Undefined "[ReqData ''late'', BackendEnd, ReqEnd]"]
    e a b c o n
  have 1: "outbound_calls (issued (run plain_env [ReqData ''late'', BackendEnd, ReqEnd] ?sE)) = []"
    and 2: "ends (issued (run plain_env [ReqData ''late'', BackendEnd, ReqEnd] ?sE)) = 1"
    and 4: "ends (issued ?sE) \<le> 1"
    by simp_all
  from C1_error_state [of "run plain_env [] ?s0" plain_env "[]"
      get_request "Num 8080" "Str ''localhost''" Undefined "[]" "''ECONNRESET''"] l0 n0 f
  have 3: "ends (issued (step plain_env (BackendError ''ECONNRESET'') (run plain_env [] ?s0))) = 1"
    by simp
  have "\<not> list_ex is_304 [BackendResponse 200 [], BackendEnd, BackendError ''ECONNRESET'']"
    and "count_list [BackendResponse 200 [], BackendEnd, BackendError ''ECONNRESET''] BackendEnd \<le> 1"
    by simp_all
  with C1_error_state [of "run plain_env [BackendResponse 200 [], BackendEnd, BackendError ''ECONNRESET''] ?s0"
      plain_env "[BackendResponse 200 [], BackendEnd, BackendError ''ECONNRESET'']"
      get_request "Num 8080" "Str ''localhost''" Undefined]
  have 5: "ends (issued (run plain_env
      [BackendResponse 200 [], BackendEnd, BackendError ''ECONNRESET''] ?s0)) \<le> 1"
    by blast
  from e l0 1 2 3 4 5 show ?thesis by blast
qed

subsection \<open>The error handler\<close>

text \<open>
  C9, as the code has it. While \<open>proxyError\<close> is attached, an \<open>error\<close> event of the
  outbound request runs it once: it sets \<open>errState\<close>, is detached (a \<open>once\<close> listener),
  and emits \<open>proxyError\<close> with the error. If a listener is registered for that event the
  handler does nothing more. Otherwise it writes head 500 with
  \<open>Content-Type: text/plain\<close>, then, unless the request method is \<open>HEAD\<close>, one body
  chunk (the fixed text in production, the text with the stringified error otherwise),
  then ends the response. A second error event issues nothing.
\<close>

theorem C9_proxy_error:
  assumes "error_listener s"
  shows "errState (step env (BackendError err) s)
    \<and> \<not> error_listener (step env (BackendError err) s)
    \<and> issued (step env (BackendError err) s)
        = issued s @ [EmitProxyError err]
          @ (if proxyError_listener env then []
             else [ResWriteHead 500 [(''Content-Type'', ''text/plain'')]]
                  @ (if http_method (req s) = ''HEAD'' then []
                     else [ResWrite (if production env then ''Internal Server Error''
                                     else ''An error has occurred: '' @ stringify env err)])
                  @ [ResEnd])
    \<and> issued (step env (BackendError err2) (step env (BackendError err) s))
        = issued (step env (BackendError err) s)"
  using assms by (simp add: handler_defs)

text \<open>A \<open>HEAD\<close> request in production: the synthesized 500 has no body.\<close>

theorem C9_counterexample:
  "issued (run production_env [BackendError ''ECONNREFUSED'']
      (proxyRequest production_env head_request (Num 8080) (Str ''localhost'') Undefined))
   = [HttpRequest (Str ''localhost'') (Num 8080) ''HEAD'' ''/index.html''
        [(''host'', ''www.example.com''), (''connection'', ''close'')],
      EmitProxyError ''ECONNREFUSED'',
      ResWriteHead 500 [(''Content-Type'', ''text/plain'')],
      ResEnd]"
  by (simp add: production_head_call handler_defs example_envs)

theorem C9_proxy_error_witness:
  "error_listener (proxyRequest production_env get_request (Num 8080) (Str ''localhost'') Undefined)
   \<and> issued (step production_env (BackendError ''ECONNREFUSED'')
        (proxyRequest production_env get_request (Num 8080) (Str ''localhost'') Undefined))
     = [HttpRequest (Str ''localhost'') (Num 8080) ''GET'' ''/index.html''
          [(''host'', ''www.example.com''), (''connection'', ''close'')],
        EmitProxyError ''ECONNREFUSED'',
        ResWriteHead 500 [(''Content-Type'', ''text/plain'')],
        ResWrite ''Internal Server Error'',
        ResEnd]"
proof -
  let ?s0 = "proxyRequest production_env get_request (Num 8080) (Str ''localhost'') Undefined"
  have l: "error_listener ?s0"
    and i: "issued ?s0 = [HttpRequest (Str ''localhost'') (Num 8080) ''GET'' ''/index.html''
          [(''host'', ''www.example.com''), (''connection'', ''close'')]]"
    and m: "http_method (req ?s0) = ''GET''"
    by (simp_all add: production_call)
  from C9_proxy_error [OF l, of production_env "''ECONNREFUSED''" "''ECONNRESET''"] l i m
  show ?thesis by (simp add: production_env_fields)
qed

subsection \<open>The shared header object\<close>

lemma connect_request:
  "HttpRequest h p (http_method rq) (url rq) (set_header (headers rq) ''connection'' ''close'')
     \<in> set (issued (connect env rq p h))"
  by (simp add: connect_defs set_header_twice split: option.splits)

lemma issued_step_grows: "\<exists>more. issued (step env ev s) = issued s @ more"
  by (cases ev) (auto simp: handler_defs)

lemma issued_run_grows: "\<exists>more. issued (run env evs s) = issued s @ more"
proof (induction evs arbitrary: s)
  case Nil
  then show ?case by simp
next
  case (Cons ev evs)
  obtain m1 where "issued (step env ev s) = issued s @ m1"
    using issued_step_grows by blast
  moreover obtain m2 where "issued (run env evs (step env ev s)) = issued (step env ev s) @ m2"
    using Cons.IH by blast
  ultimately show ?case by simp
qed

lemma issued_resume_grows: "\<exists>more. issued (resume_buffer env b s) = issued s @ more"
  by (cases b) (simp_all add: resume_buffer_def throw_def issued_run_grows)

text \<open>
  C10, as the code has it. Every call of \<open>proxyRequest\<close> that gets past route resolution
  (every call but the route miss, which returns before the headers are touched) leaves the
  request's own header object with \<open>connection\<close> set to \<open>close\<close> and every other entry
  as it was; the outbound request is opened with exactly those headers; and the request
  still has them after any later events. \<open>_forwardRequest\<close> does the same to the request
  it is given before it opens the forward request.
\<close>

theorem C10_headers_aliased:
  assumes "resolve env rq port_arg host_arg buffer_arg = Some (port1, host1, buffer1)"
  shows "headers (req (run env evs (proxyRequest env rq port_arg host_arg buffer_arg)))
           = set_header (headers rq) ''connection'' ''close''
    \<and> HttpRequest host1 port1 (http_method rq) (url rq) (set_header (headers rq) ''connection'' ''close'')
         \<in> set (issued (proxyRequest env rq port_arg host_arg buffer_arg))
    \<and> headers (req (forwardRequest f s)) = set_header (headers (req s)) ''connection'' ''close''
    \<and> issued (forwardRequest f s) = issued s @
         [ForwardRequest (Str (host f)) (Num (port f)) (http_method (req s)) (url (req s))
            (set_header (headers (req s)) ''connection'' ''close'')]"
proof -
  have p: "proxyRequest env rq port_arg host_arg buffer_arg
      = resume_buffer env buffer1 (connect env rq port1 host1)"
    using assms by (simp add: proxyRequest_def)
  obtain more where "issued (resume_buffer env buffer1 (connect env rq port1 host1))
      = issued (connect env rq port1 host1) @ more"
    using issued_resume_grows by blast
  with connect_request [of host1 port1 rq env] p
  have "HttpRequest host1 port1 (http_method rq) (url rq) (set_header (headers rq) ''connection'' ''close'')
         \<in> set (issued (proxyRequest env rq port_arg host_arg buffer_arg))"
    by simp
  then show ?thesis
    by (simp add: p req_run req_resume_buffer connect_headers forwardRequest_def force_close_def
        issue_def Let_def)
qed

text \<open>On a route miss the request's \<open>connection\<close> header is what the client sent.\<close>

theorem C10_counterexample:
  "issued (proxyRequest empty_table_env get_request Undefined Undefined Undefined)
     = [ResWriteHead 404 [], ResEnd]
   \<and> map_of (headers (req (proxyRequest empty_table_env get_request Undefined Undefined Undefined)))
       ''connection'' = Some ''keep-alive''"
  by (simp add: empty_table_env_def plain_env_def get_request_def proxyRequest_def resolve_def
      issue_def start_def)

theorem C10_headers_aliased_witness:
  "resolve forward_env get_request (Num 8080) (Str ''localhost'') Undefined
     = Some (Num 8080, Str ''localhost'', Undefined)
   \<and> headers (req (run forward_env [BackendResponse 200 [], BackendEnd]
        (proxyRequest forward_env get_request (Num 8080) (Str ''localhost'') Undefined)))
       = [(''host'', ''www.example.com''), (''connection'', ''close'')]
   \<and> HttpRequest (Str ''localhost'') (Num 8080) ''GET'' ''/index.html''
        [(''host'', ''www.example.com''), (''connection'', ''close'')]
       \<in> set (issued (proxyRequest forward_env get_request (Num 8080) (Str ''localhost'') Undefined))"
proof -
  have r: "resolve forward_env get_request (Num 8080) (Str ''localhost'') Undefined
     = Some (Num 8080, Str ''localhost'', Undefined)"
    by (simp add: resolve_def forward_env_def plain_env_def)
  have g: "http_method get_request = ''GET''" "url get_request = ''/index.html''"
    by (simp_all add: get_request_def)
  from C10_headers_aliased [OF r, of "[BackendResponse 200 [], BackendEnd]"] r
  show ?thesis by (simp add: get_request_close g)
qed

subsection \<open>The response head\<close>

lemma connect_connection:
  "truthy_header (headers (req (connect env rq p h))) ''connection'' = Some ''close''"
  by (simp add: connect_headers truthy_header_def set_header_def update_conv')

text \<open>
  What the callback of \<open>http.request\<close> writes, given that the request's \<open>connection\<close>
  header reads \<open>close\<close> (as it does after \<open>connect\<close>): status and headers as the backend
  sent them, a truthy backend \<open>connection\<close> header replaced by \<open>close\<close>; a 304 is ended at
  once and no listener is put on the response.
\<close>

lemma response_head:
  assumes "response_callback s"
    and "truthy_header (headers (req s)) ''connection'' = Some ''close''"
  shows "issued (step env (BackendResponse status hs) s)
      = issued s @ [ResWriteHead status
            (if truthy_header hs ''connection'' = None then hs
             else set_header hs ''connection'' ''close'')]
          @ (if status = 304 then [ResEnd] else [])
    \<and> response_listeners (step env (BackendResponse status hs) s)
        = (if status = 304 then response_listeners s else True)"
  using assms by (auto simp: handler_defs split: option.splits)

lemma proxyRequest_response_head:
  assumes "resolve env rq p h b = Some (p1, h1, b1)"
  shows "issued (step env (BackendResponse status hs) (proxyRequest env rq p h b))
      = issued (proxyRequest env rq p h b)
        @ [ResWriteHead status
             (if truthy_header hs ''connection'' = None then hs
              else set_header hs ''connection'' ''close'')]
        @ (if status = 304 then [ResEnd] else [])"
proof -
  have p: "proxyRequest env rq p h b = resume_buffer env b1 (connect env rq p1 h1)"
    using assms by (simp add: proxyRequest_def)
  have "response_callback (proxyRequest env rq p h b)"
    by (simp add: p resume_flags connect_flags)
  moreover have "truthy_header (headers (req (proxyRequest env rq p h b))) ''connection'' = Some ''close''"
    by (simp add: p req_resume_buffer connect_connection)
  ultimately show ?thesis
    using response_head by blast
qed

text \<open>
  After a 304 the response carries no listener: whatever the backend sends afterwards,
  nothing of it is written to the inbound response.
\<close>

lemma unheard_step:
  "\<not> response_callback s \<Longrightarrow> \<not> response_listeners s \<Longrightarrow> \<not> is_error ev \<Longrightarrow>
     \<not> response_callback (step env ev s) \<and> \<not> response_listeners (step env ev s)
     \<and> body_writes (issued (step env ev s)) = body_writes (issued s)"
  by (cases ev) (auto simp: handler_defs body_writes_def)

lemma unheard_run:
  "\<not> response_callback s \<Longrightarrow> \<not> response_listeners s \<Longrightarrow> \<not> list_ex is_error evs \<Longrightarrow>
     body_writes (issued (run env evs s)) = body_writes (issued s)"
proof (induction evs arbitrary: s)
  case Nil
  then show ?case by simp
next
  case (Cons ev evs)
  have n: "\<not> is_error ev" and ns: "\<not> list_ex is_error evs" using Cons.prems(3) by simp_all
  from unheard_step [OF Cons.prems(1) Cons.prems(2) n, of env]
    Cons.IH [of "step env ev s"] ns
  show ?case by simp
qed

lemma request_events_body:
  "body_writes (issued (run env (map req_event cs) s)) = body_writes (issued s)"
proof (induction cs arbitrary: s)
  case Nil
  then show ?case by simp
next
  case (Cons c cs)
  have "body_writes (issued (step env (req_event c) s)) = body_writes (issued s)"
    by (cases c) (auto simp: handler_defs body_writes_def)
  with Cons.IH [of "step env (req_event c) s"] show ?case by simp
qed

lemma resume_body: "body_writes (issued (resume_buffer env b s)) = body_writes (issued s)"
  by (cases b) (simp_all add: resume_buffer_def throw_def request_events_body)

lemma not_modified_forwards_nothing:
  assumes "resolve env rq p h b = Some (p1, h1, b1)" and "\<not> list_ex is_error evs"
  shows "body_writes (issued (run env (BackendResponse 304 hs # evs) (proxyRequest env rq p h b))) = []"
proof -
  let ?s0 = "proxyRequest env rq p h b"
  let ?s1 = "step env (BackendResponse 304 hs) ?s0"
  have p: "?s0 = resume_buffer env b1 (connect env rq p1 h1)"
    using assms(1) by (simp add: proxyRequest_def)
  have c: "response_callback ?s0" and l: "\<not> response_listeners ?s0"
    by (simp_all add: p resume_flags connect_flags)
  have b0: "body_writes (issued ?s0) = []"
    by (simp add: p resume_body connect_body)
  have "\<not> response_callback ?s1" and "\<not> response_listeners ?s1"
    and "body_writes (issued ?s1) = body_writes (issued ?s0)"
    using c l by (simp_all add: handler_defs body_writes_def)
  with unheard_run [of ?s1 evs env] assms(2) b0 show ?thesis by simp
qed

text \<open>
  C4 at a keep-alive request. The client sends \<open>connection: keep-alive\<close> and the backend
  answers 200 with \<open>connection: keep-alive\<close>; the head written to the client carries
  \<open>connection: close\<close>, because the request's header object was overwritten when the
  outbound request was opened and the callback reads it afterwards.
\<close>

theorem C4_connection_header:
  "issued (run plain_env
      [BackendResponse 200 [(''content-type'', ''text/html''), (''connection'', ''keep-alive'')]]
      (proxyRequest plain_env get_request (Num 8080) (Str ''localhost'') Undefined))
   = [HttpRequest (Str ''localhost'') (Num 8080) ''GET'' ''/index.html''
        [(''host'', ''www.example.com''), (''connection'', ''close'')],
      ResWriteHead 200 [(''content-type'', ''text/html''), (''connection'', ''close'')]]"
  by (simp add: plain_call handler_defs set_header_def truthy_header_def)

section \<open>Properties of the event buffer\<close>

declare resume_loop.simps [simp del]

lemma emit_detached:
  "\<not> onData s \<Longrightarrow> \<not> onEnd s \<Longrightarrow> emit ev s = s\<lparr> emitted := emitted s @ [ev] \<rparr>"
  by (cases ev) simp_all

lemma emit_attached:
  "onData s \<Longrightarrow> onEnd s \<Longrightarrow>
     emit ev s = s\<lparr> events := events s @ [ev], emitted := emitted s @ [ev] \<rparr>"
  by (cases ev) simp_all

lemma capture_attached:
  "onData s \<Longrightarrow> onEnd s \<Longrightarrow>
     capture evs s = s\<lparr> events := events s @ evs, emitted := emitted s @ evs \<rparr>"
proof (induction evs arbitrary: s)
  case Nil
  then show ?case by simp
next
  case (Cons ev evs)
  then show ?case by (simp add: emit_attached)
qed

lemma resume_loop_detached:
  "\<not> onData s \<Longrightarrow> \<not> onEnd s \<Longrightarrow> len = length (events s) \<Longrightarrow>
     resume_loop i len s = s\<lparr> emitted := emitted s @ drop i (events s) \<rparr>"
proof (induction i len s rule: resume_loop.induct)
  case (1 i len s)
  show ?case
  proof (cases "i < len")
    case True
    let ?s1 = "emit (events s ! i) s"
    have s1: "?s1 = s\<lparr> emitted := emitted s @ [events s ! i] \<rparr>"
      using "1.prems" by (simp add: emit_detached)
    have unfold: "resume_loop i len s = resume_loop (Suc i) len ?s1"
      using True by (subst resume_loop.simps) simp
    have "resume_loop (Suc i) len ?s1 = ?s1\<lparr> emitted := emitted ?s1 @ drop (Suc i) (events ?s1) \<rparr>"
      using "1.IH" [OF True] "1.prems" s1 by simp
    moreover have "drop i (events s) = events s ! i # drop (Suc i) (events s)"
      using True "1.prems"(3) by (simp add: Cons_nth_drop_Suc)
    ultimately show ?thesis
      using unfold s1 by simp
  next
    case False
    have "resume_loop i len s = s"
      using False by (subst resume_loop.simps) simp
    then show ?thesis
      using False "1.prems"(3) by simp
  qed
qed

lemma resume_value:
  "resume s = s\<lparr> onData := False, onEnd := False, emitted := emitted s @ events s \<rparr>"
  by (simp add: resume_def buffer_end_def Let_def resume_loop_detached)

text \<open>
  C2, as the code has it. While the handle's listeners are attached, the events the
  source emits are recorded in order. \<open>resume()\<close> detaches the listeners and then emits
  exactly the recorded events on the source, in the order of capture, each once, in that
  one call; the recorded events stay in the array, and nothing emitted afterwards is
  recorded. A second \<open>resume()\<close> therefore emits the same recorded events once more: it
  is a no-op only when nothing was captured.
\<close>

theorem C2_buffer_replay:
  "events (capture evs buffer) = evs
   \<and> emitted (resume (capture evs buffer)) = emitted (capture evs buffer) @ evs
   \<and> emitted (resume s) = emitted s @ events s
   \<and> events (resume s) = events s
   \<and> \<not> onData (resume s) \<and> \<not> onEnd (resume s)
   \<and> emitted (resume (resume s)) = emitted (resume s) @ events s"
proof -
  have "onData buffer" and "onEnd buffer" by (simp_all add: buffer_def)
  then have c: "capture evs buffer = buffer\<lparr> events := events buffer @ evs, emitted := emitted buffer @ evs \<rparr>"
    by (rule capture_attached)
  have e: "events (capture evs buffer) = evs" by (simp add: c) (simp add: buffer_def)
  have r: "emitted (resume (resume s)) = emitted (resume s) @ events (resume s)"
    by (simp add: resume_value [of "resume s"])
  from e r show ?thesis by (simp add: resume_value [of s] resume_value [of "capture evs buffer"])
qed

theorem C2_counterexample:
  "emitted (resume (capture [DataEvent ''chunk'' None, EndEvent None None] buffer))
     = [DataEvent ''chunk'' None, EndEvent None None, DataEvent ''chunk'' None, EndEvent None None]
   \<and> emitted (resume (resume (capture [DataEvent ''chunk'' None, EndEvent None None] buffer)))
     = [DataEvent ''chunk'' None, EndEvent None None, DataEvent ''chunk'' None, EndEvent None None,
        DataEvent ''chunk'' None, EndEvent None None]"
  by (simp add: resume_value capture_attached buffer_def)

theorem C2_buffer_replay_witness:
  "events (capture [DataEvent ''chunk'' None, EndEvent None None] buffer)
     = [DataEvent ''chunk'' None, EndEvent None None]
   \<and> emitted (resume (capture [DataEvent ''chunk'' None, EndEvent None None] buffer))
     = emitted (capture [DataEvent ''chunk'' None, EndEvent None None] buffer)
       @ [DataEvent ''chunk'' None, EndEvent None None]"
  using C2_buffer_replay [of "[DataEvent ''chunk'' None, EndEvent None None]" buffer] by blast

section \<open>Properties of the WebSocket tunnel\<close>

lemmas tunnel_defs = perform_def addListener_def removeListener_def listeners_of_def Let_def

subsection \<open>Requests that are not WebSocket upgrades\<close>

lemma dormant_step:
  "dormant s \<Longrightarrow> dormant (tunnel_step ev s) \<and> effects (tunnel_step ev s) = effects s"
  by (cases ev) (auto simp: dormant_def listeners_of_def)

lemma dormant_run: "dormant s \<Longrightarrow> effects (tunnel_run evs s) = effects s"
proof (induction evs arbitrary: s)
  case Nil
  then show ?case by simp
next
  case (Cons ev evs)
  from dormant_step [OF Cons.prems, of ev] Cons.IH [of "tunnel_step ev s"]
  show ?case by simp
qed

lemma dormant_idle: "dormant (idle rq head_bytes)" and effects_idle: "effects (idle rq head_bytes) = []"
  by (simp_all add: dormant_def idle_def)

text \<open>
  C8. If the request's method is not \<open>GET\<close>, or it carries an \<open>upgrade\<close> header whose
  lower-cased value is not \<open>websocket\<close>, then \<open>proxyWebSocketRequest\<close> returns normally
  having done nothing: no call on the inbound socket, no pool or client acquired, no
  listener attached, so that no later event has any effect either.
\<close>

theorem C8_not_websocket:
  assumes "http_method rq \<noteq> ''GET''
    \<or> (\<exists>u. map_of (headers rq) ''upgrade'' = Some u \<and> toLowerCase u \<noteq> ''websocket'')"
  shows "proxyWebSocketRequest rq head_bytes port_arg server host_arg = Inr (idle rq head_bytes)
    \<and> effects (idle rq head_bytes) = []
    \<and> listeners (idle rq head_bytes) = []
    \<and> \<not> awaiting_client (idle rq head_bytes)
    \<and> effects (tunnel_run evs (idle rq head_bytes)) = []"
proof -
  have "proxyWebSocketRequest rq head_bytes port_arg server host_arg = Inr (idle rq head_bytes)"
    using assms by (auto simp: proxyWebSocketRequest_def Let_def idle_def)
  with dormant_run [OF dormant_idle, of evs rq head_bytes] dormant_idle [of rq head_bytes]
  show ?thesis
    by (simp add: effects_idle dormant_def)
qed

text \<open>A WebSocket upgrade does start the tunnel, and a \<open>GET\<close> with no \<open>upgrade\<close> header at all throws.\<close>

lemma websocket_request_opens:
  assumes "http_method rq = ''GET''" and "map_of (headers rq) ''upgrade'' = Some u"
    and "toLowerCase u = ''websocket''"
  shows "\<exists>s. proxyWebSocketRequest rq head_bytes port_arg server host_arg = Inr s
    \<and> awaiting_client s
    \<and> effects s = [SetTimeout Socket 0, SetNoDelay Socket True, SetEncoding Socket ''utf8'',
                    GetPool port_arg server, GetClient]"
  using assms by (simp add: proxyWebSocketRequest_def Let_def idle_def perform_def)

lemma missing_upgrade_header:
  assumes "http_method rq = ''GET''" and "map_of (headers rq) ''upgrade'' = None"
  shows "proxyWebSocketRequest rq head_bytes port_arg server host_arg = Inl TypeError"
  using assms by (simp add: proxyWebSocketRequest_def Let_def idle_def)

theorem C8_not_websocket_witness:
  "http_method post_request \<noteq> ''GET''
   \<and> map_of (headers tls_upgrade_request) ''upgrade'' = Some ''TLS/1.0''
   \<and> toLowerCase ''TLS/1.0'' \<noteq> ''websocket''
   \<and> proxyWebSocketRequest post_request [] 8080 ''localhost'' None = Inr (idle post_request [])
   \<and> proxyWebSocketRequest tls_upgrade_request [] 8080 ''localhost'' None
       = Inr (idle tls_upgrade_request [])
   \<and> effects (tunnel_run [ClientReady, Emit Socket EvData ''ping'', Emit Socket EvEnd []]
        (idle tls_upgrade_request [])) = []"
proof -
  have a: "http_method post_request \<noteq> ''GET''" by (simp add: post_request_def)
  have b: "map_of (headers tls_upgrade_request) ''upgrade'' = Some ''TLS/1.0''"
    by (simp add: tls_upgrade_request_def)
  have c: "toLowerCase ''TLS/1.0'' \<noteq> ''websocket''"
    by (simp add: toLowerCase_def lower_char_def)
  from C8_not_websocket [of post_request "[]" 8080 "''localhost''" None "[]"] a
  have 1: "proxyWebSocketRequest post_request [] 8080 ''localhost'' None = Inr (idle post_request [])"
    by simp
  from C8_not_websocket [of tls_upgrade_request "[]" 8080 "''localhost''" None
      "[ClientReady, Emit Socket EvData ''ping'', Emit Socket EvEnd []]"] b c
  have 2: "proxyWebSocketRequest tls_upgrade_request [] 8080 ''localhost'' None
       = Inr (idle tls_upgrade_request [])"
    and 3: "effects (tunnel_run [ClientReady, Emit Socket EvData ''ping'', Emit Socket EvEnd []]
        (idle tls_upgrade_request [])) = []"
    by blast+
  from a b c 1 2 3 show ?thesis by blast
qed

subsection \<open>The example tunnel, evaluated\<close>

lemma started_call: "proxyWebSocketRequest upgrade_request [] 80 ''localhost'' None = Inr started"
  by (simp add: proxyWebSocketRequest_def upgrade_request_def started_def idle_def tunnel_defs
      toLowerCase_def lower_char_def set_header_def)

lemma requested_step: "tunnel_step ClientReady started = requested"
  by (simp add: started_def requested_def on_client_def tunnel_defs)

subsection \<open>The handshake listener\<close>

lemma toString_ascii: "list_all ascii p \<Longrightarrow> toString (p @ r) = p @ toString r"
  by (induction p) (simp_all add: ascii_def sequence_length_def)

lemma take_whole_pattern: "take (length pat) xs = pat \<Longrightarrow> length pat \<le> length xs"
proof -
  assume "take (length pat) xs = pat"
  then have "length (take (length pat) xs) = length pat" by (rule arg_cong)
  then show ?thesis by (simp add: min_def split: if_splits)
qed

lemma indexOf_bound: "indexOf pat xs = Some i \<Longrightarrow> i + length pat \<le> length xs"
proof (induction xs arbitrary: i)
  case Nil
  then show ?case by (simp split: if_splits)
next
  case (Cons c cs)
  show ?case
  proof (cases "take (length pat) (c # cs) = pat")
    case True
    then have "length pat \<le> length (c # cs)"
      by (rule take_whole_pattern)
    with True Cons.prems show ?thesis by simp
  next
    case False
    with Cons.prems obtain j where "indexOf pat cs = Some j" and "i = Suc j" by auto
    with Cons.IH show ?thesis by simp
  qed
qed

lemma take_within: "n \<le> length xs \<Longrightarrow> take n (xs @ r) = take n xs"
  by simp

lemma indexOf_append: "indexOf pat xs = Some i \<Longrightarrow> indexOf pat (xs @ r) = Some i"
proof (induction xs arbitrary: i)
  case Nil
  then show ?case by (cases r) (simp_all split: if_splits)
next
  case (Cons c cs)
  show ?case
  proof (cases "take (length pat) (c # cs) = pat")
    case True
    then have "length pat \<le> length (c # cs)"
      by (rule take_whole_pattern)
    then have "take (length pat) (c # (cs @ r)) = take (length pat) (c # cs)"
      using take_within [of "length pat" "c # cs" r] by simp
    with True Cons.prems show ?thesis by simp
  next
    case False
    with Cons.prems obtain j where j: "indexOf pat cs = Some j" and i: "i = Suc j" by auto
    from indexOf_bound [OF j] have "length pat \<le> length (c # cs)" by simp
    then have "take (length pat) (c # (cs @ r)) = take (length pat) (c # cs)"
      using take_within [of "length pat" "c # cs" r] by simp
    with False have "take (length pat) (c # (cs @ r)) \<noteq> pat" by simp
    with Cons.IH [OF j] i show ?thesis by simp
  qed
qed

lemma expand_plain: "CHR ''$'' \<notin> set rep \<Longrightarrow> expand rep matched pre post = rep"
  by (induction rep matched pre post rule: expand.induct) auto

lemma replace_found:
  assumes "indexOf pat s = Some i" and "CHR ''$'' \<notin> set rep"
  shows "replace s pat rep = take i s @ rep @ drop (i + length pat) s"
  using assms by (simp add: replace_def expand_plain)

lemma replace_first:
  assumes "indexOf pat (a @ pat) = Some (length a)" and "CHR ''$'' \<notin> set rep"
  shows "replace (a @ pat @ b) pat rep = a @ rep @ b"
proof -
  have "indexOf pat ((a @ pat) @ b) = Some (length a)"
    using assms(1) by (rule indexOf_append)
  then have "indexOf pat (a @ pat @ b) = Some (length a)" by simp
  from replace_found [OF this assms(2)] show ?thesis by simp
qed

lemma replace_both:
  assumes "indexOf pat (a @ pat) = Some (length a)"
    and "indexOf pat (a @ rep @ b @ pat) = Some (length (a @ rep @ b))"
    and "CHR ''$'' \<notin> set rep"
  shows "replace (replace (a @ pat @ b @ pat @ c) pat rep) pat rep = a @ rep @ b @ rep @ c"
proof -
  have 1: "replace (a @ pat @ b @ pat @ c) pat rep = a @ rep @ b @ pat @ c"
    using replace_first [OF assms(1) assms(3), of "b @ pat @ c"] by simp
  have "replace ((a @ rep @ b) @ pat @ c) pat rep = (a @ rep @ b) @ rep @ c"
    using assms(2) assms(3) by (intro replace_first) simp_all
  with 1 show ?thesis by simp
qed

lemma handshake_split:
  assumes "list_all ascii text"
    and "indexOf (CRLF @ CRLF) (text @ CRLF @ CRLF) = Some (length text)"
    and "Socket \<notin> failing s"
  shows "effects (handshake (text @ CRLF @ CRLF @ rest) s)
      = effects s @ [Write Socket (replace (replace text (remote_host s) (string_of (tunnel_host s)))
                                     (remote_host s) (string_of (tunnel_host s))),
                     Write Socket (CRLF @ CRLF @ rest)]
    \<and> listeners (handshake (text @ CRLF @ CRLF @ rest) s)
      = remove1 (RequestSocket, EvData, Handshake) (listeners s @ [(Socket, EvError, OnSocketError)])"
proof -
  let ?data = "text @ CRLF @ CRLF @ rest"
  have "list_all ascii (text @ CRLF @ CRLF)"
    using assms(1) by (simp add: CRLF_def ascii_def)
  then have "toString ((text @ CRLF @ CRLF) @ rest) = (text @ CRLF @ CRLF) @ toString rest"
    by (rule toString_ascii)
  then have t: "toString ?data = (text @ CRLF @ CRLF) @ toString rest" by simp
  have "indexOf (CRLF @ CRLF) ((text @ CRLF @ CRLF) @ toString rest) = Some (length text)"
    using assms(2) by (rule indexOf_append)
  then have "search (toString ?data) (CRLF @ CRLF) = int (length text)"
    by (simp only: t search_def option.case)
  then have sd: "substr (toString ?data) 0 (search (toString ?data) (CRLF @ CRLF)) = text"
    by (simp add: substr_def t)
  have sl: "slice ?data (byteLength text) (length ?data) = Some (CRLF @ CRLF @ rest)"
    by (simp add: slice_def byteLength_def)
  have "handshake ?data s =
      removeListener RequestSocket EvData Handshake
        (addListener Socket EvError OnSocketError
          (perform (Write Socket (CRLF @ CRLF @ rest))
            (perform (Write Socket
               (replace (replace text (remote_host s) (string_of (tunnel_host s)))
                  (remote_host s) (string_of (tunnel_host s)))) s)))"
    using assms(3) by (simp only: handshake_def Let_def sd sl option.case if_False)
  then show ?thesis
    by (simp add: tunnel_defs)
qed

text \<open>
  With a \<open>$\<close>-free host, and a host text that does not itself bring a new first
  occurrence of the backend token, the two replacements put the host in place of both
  tokens.
\<close>

lemma handshake_rewrites_both:
  assumes "list_all ascii (a @ remote_host s @ b @ remote_host s @ c)"
    and "indexOf (CRLF @ CRLF) ((a @ remote_host s @ b @ remote_host s @ c) @ CRLF @ CRLF)
           = Some (length (a @ remote_host s @ b @ remote_host s @ c))"
    and "Socket \<notin> failing s"
    and "tunnel_host s = Some h" and "CHR ''$'' \<notin> set h"
    and "indexOf (remote_host s) (a @ remote_host s) = Some (length a)"
    and "indexOf (remote_host s) (a @ h @ b @ remote_host s) = Some (length (a @ h @ b))"
  shows "effects (handshake ((a @ remote_host s @ b @ remote_host s @ c) @ CRLF @ CRLF @ rest) s)
      = effects s @ [Write Socket (a @ h @ b @ h @ c), Write Socket (CRLF @ CRLF @ rest)]"
proof -
  have "replace (replace (a @ remote_host s @ b @ remote_host s @ c) (remote_host s) h) (remote_host s) h
      = a @ h @ b @ h @ c"
    using assms(6) assms(7) assms(5) by (rule replace_both)
  with handshake_split [OF assms(1) assms(2) assms(3), of rest] assms(4) show ?thesis
    by (simp add: string_of_def)
qed

text \<open>
  C6 at a proxy reached as \<open>localhost:8080\<close> in front of a backend on \<open>localhost\<close>,
  port 80. The backend's handshake names \<open>localhost\<close> in its origin line and in its
  location line. The chunk is split at the first double line terminator and the bytes
  from there on are written unchanged, after the text; but in the text the second
  \<open>replace\<close> finds the token inside the host that the first one has just inserted: the
  origin line reads \<open>localhost:8080:8080\<close> and the location line still names the backend.
\<close>

theorem C6_handshake_rewrite:
  "proxyWebSocketRequest upgrade_request [] 80 ''localhost'' None = Inr started
   \<and> effects (tunnel_run [ClientReady, Emit RequestSocket EvData (handshake_text @ CRLF @ CRLF @ checksum)]
        started)
     = effects (tunnel_run [ClientReady] started) @
       [Write Socket (''HTTP/1.1 101 Handshake'' @ CRLF
          @ ''Sec-WebSocket-Origin: http://localhost:8080:8080'' @ CRLF
          @ ''Sec-WebSocket-Location: ws://localhost/chat''),
        Write Socket (CRLF @ CRLF @ checksum)]"
proof -
  have "effects (tunnel_step (Emit RequestSocket EvData (handshake_text @ CRLF @ CRLF @ checksum)) requested)
     = effects requested @
       [Write Socket (''HTTP/1.1 101 Handshake'' @ CRLF
          @ ''Sec-WebSocket-Origin: http://localhost:8080:8080'' @ CRLF
          @ ''Sec-WebSocket-Location: ws://localhost/chat''),
        Write Socket (CRLF @ CRLF @ checksum)]"
    by (simp add: requested_def tunnel_defs handshake_def handshake_text_def CRLF_def checksum_def
        sequence_length_def search_def substr_def byteLength_def slice_def replace_def string_of_def)
  then show ?thesis
    by (simp only: tunnel_run.simps requested_step started_call)
qed

subsection \<open>The relay listeners\<close>

lemma filter_remove1_other: "\<not> P x \<Longrightarrow> filter P (remove1 x xs) = filter P xs"
  by (induction xs) auto

lemma detach_keeps_end: "listeners_of e EvEnd (detach k s) = listeners_of e EvEnd s"
  by (simp add: listeners_of_def detach_def removeListener_def filter_remove1_other)

lemma close_twice:
  assumes "listeners_of Socket EvEnd s = [L_close k]"
    and "listeners_of ReverseProxy EvEnd s = [L_r_close k]"
  shows "effects (tunnel_run [Emit Socket EvEnd d1, Emit ReverseProxy EvEnd d2] s)
    = effects s @ [End ReverseProxy, End Socket]"
proof -
  let ?s1 = "detach k (perform (End ReverseProxy) s)"
  have s1: "tunnel_step (Emit Socket EvEnd d1) s = ?s1"
    using assms(1) by (simp add: detach_def removeListener_def perform_def)
  have "listeners_of ReverseProxy EvEnd (perform (End ReverseProxy) s) = [L_r_close k]"
    using assms(2) by (simp add: listeners_of_def perform_def)
  then have l: "listeners_of ReverseProxy EvEnd ?s1 = [L_r_close k]"
    by (simp only: detach_keeps_end)
  have s2: "tunnel_step (Emit ReverseProxy EvEnd d2) ?s1 = detach k (perform (End Socket) ?s1)"
    using l by (simp add: detach_def removeListener_def perform_def)
  have "tunnel_run [Emit Socket EvEnd d1, Emit ReverseProxy EvEnd d2] s
      = detach k (perform (End Socket) ?s1)"
    by (simp only: tunnel_run.simps s1 s2)
  then show ?thesis
    by (simp add: detach_def removeListener_def perform_def)
qed

text \<open>
  C7 on the example tunnel. After the upgrade, an \<open>end\<close> on the client socket ends the
  backend socket and runs \<open>detach\<close>, which takes off the two data listeners and asks to
  remove the other two from \<open>close\<close>, where they were never put: both \<open>end\<close> listeners
  stay attached. The backend's own \<open>end\<close> then runs its listener, which ends the client
  socket and runs \<open>detach\<close> once more.
\<close>

theorem C7_second_close:
  "listeners (tunnel_run [ClientReady, Emit Client EvUpgrade [], Emit Socket EvEnd []] started)
     = [(Client, EvUpgrade, OnUpgrade), (Client, EvError, ErrorListener),
        (Request, EvResponse, OnResponse), (RequestSocket, EvData, Handshake),
        (ReverseProxy, EvEnd, L_r_close 0), (Socket, EvEnd, L_close 0)]
   \<and> effects (tunnel_run [ClientReady, Emit Client EvUpgrade [], Emit Socket EvEnd [],
         Emit ReverseProxy EvEnd []] started)
     = effects (tunnel_run [ClientReady, Emit Client EvUpgrade []] started)
       @ [End ReverseProxy, End Socket]"
proof -
  have "listeners (tunnel_run [Emit Client EvUpgrade [], Emit Socket EvEnd []] requested)
     = [(Client, EvUpgrade, OnUpgrade), (Client, EvError, ErrorListener),
        (Request, EvResponse, OnResponse), (RequestSocket, EvData, Handshake),
        (ReverseProxy, EvEnd, L_r_close 0), (Socket, EvEnd, L_close 0)]"
    by (simp add: requested_def tunnel_defs onUpgrade_def detach_def)
  moreover have "effects (tunnel_run [Emit Client EvUpgrade [], Emit Socket EvEnd [],
         Emit ReverseProxy EvEnd []] requested)
     = effects (tunnel_run [Emit Client EvUpgrade []] requested) @ [End ReverseProxy, End Socket]"
    by (simp add: requested_def tunnel_defs onUpgrade_def detach_def)
  ultimately show ?thesis
    by (simp only: tunnel_run.simps requested_step)
qed

end
